theory Spec2Isabelle
  imports Complex_Main
begin

section \<open>Column-name sanitization\<close>

text \<open>
  The notebook renames every column of the flattened frame with
  \<^verbatim>\<open>[x.strip().replace('.', '_') for x in crypto_data_tbl_df.columns]\<close>.
  A string is a list of characters; a character stands for a code point below 256.
  \<open>str.strip()\<close> without argument removes leading and trailing whitespace, which for
  code points below 256 are 9 to 13, 28 to 32, 133 and 160. \<open>str.replace\<close> is only
  called with one-character arguments, where it rewrites every occurrence.
\<close>

definition isspace :: "char \<Rightarrow> bool" where
  "isspace c = (of_char c \<in> {9, 10, 11, 12, 13, 28, 29, 30, 31, 32, 133, 160 :: nat})"

definition strip :: "string \<Rightarrow> string" where
  "strip s = rev (dropWhile isspace (rev (dropWhile isspace s)))"

definition replace :: "char \<Rightarrow> char \<Rightarrow> string \<Rightarrow> string" where
  "replace old new s = map (\<lambda>c. if c = old then new else c) s"

definition sanitize_column :: "string \<Rightarrow> string" where
  "sanitize_column x = replace (CHR ''.'') (CHR ''_'') (strip x)"

section \<open>JSON values and the flattened frame\<close>

text \<open>
  What \<open>json.loads\<close> returns: a dict is an association list in insertion order, a
  number is a real (a finite float denotes one).
\<close>

datatype json = JNull | JBool bool | JNum real | JStr string | JArr "json list"
  | JObj "(string \<times> json) list"

type_synonym dict = "(string \<times> json) list"

text \<open>The Python exceptions that the notebook's statements can raise.\<close>

datatype exn = AttributeError | KeyError string | TypeError | ValueError | NameError string
  | LibraryError

fun is_dict :: "json \<Rightarrow> bool" where
  "is_dict (JObj d) = True"
| "is_dict v = False"

fun items :: "json \<Rightarrow> dict" where
  "items (JObj d) = d"
| "items v = []"

text \<open>
  \<open>obj[k]\<close> on a parsed JSON value with a string key: a dict looks the key up and raises
  KeyError without it, every other value raises TypeError.
\<close>

fun subscript :: "json \<Rightarrow> string \<Rightarrow> exn + json" where
  "subscript (JObj d) k = (case map_of d k of Some v \<Rightarrow> Inr v | None \<Rightarrow> Inl (KeyError k))"
| "subscript v k = Inl TypeError"

fun subscripts :: "json \<Rightarrow> string list \<Rightarrow> exn + json" where
  "subscripts v [] = Inr v"
| "subscripts v (k # ks) = (case subscript v k of Inl e \<Rightarrow> Inl e | Inr u \<Rightarrow> subscripts u ks)"

text \<open>
  \<open>json_normalize\<close> (pandas) flattens every record: a value that is a dict is replaced
  by its own entries, each key prefixed with the path to it and the separator \<open>.\<close>; any
  other value (a list included) stays a cell. \<open>nested_to_record\<close> is the helper of that
  name in pandas, with \<open>None\<close> for the top level, where keys get no prefix.
\<close>

definition newkey :: "string option \<Rightarrow> string \<Rightarrow> string" where
  "newkey prefix k = (case prefix of None \<Rightarrow> k | Some p \<Rightarrow> p @ ''.'' @ k)"

fun nested_to_record :: "string option \<Rightarrow> dict \<Rightarrow> dict" where
  "nested_to_record prefix [] = []"
| "nested_to_record prefix ((k, JObj sub) # kvs) =
     nested_to_record (Some (newkey prefix k)) sub @ nested_to_record prefix kvs"
| "nested_to_record prefix ((k, v) # kvs) = (newkey prefix k, v) # nested_to_record prefix kvs"

text \<open>
  A frame has a list of column labels and, per record, one cell per column, by
  position. \<open>DataFrame\<close> of a list of flat records takes the union of their keys as
  columns (here in first-seen order; no theorem below depends on the order) and leaves
  \<open>NaN\<close> where a record has no such key. A key written twice keeps its last value.
\<close>

datatype cell = NaN | Val json

record dataframe =
  columns :: "string list"
  rows :: "cell list list"

definition DataFrame :: "dict list \<Rightarrow> dataframe" where
  "DataFrame recs =
     (let cols = rev (remdups (rev (concat (map (map fst) recs))))
      in \<lparr>columns = cols,
          rows = map (\<lambda>r. map (\<lambda>c. case map_of (rev r) c of None \<Rightarrow> NaN | Some v \<Rightarrow> Val v) cols)
                   recs\<rparr>)"

text \<open>
  \<open>json_normalize\<close> takes a list of dicts or one dict; on anything else pandas raises
  from inside the library.
\<close>

definition json_normalize :: "json \<Rightarrow> exn + dataframe" where
  "json_normalize data =
     (case data of
        JArr xs \<Rightarrow>
          if list_all is_dict xs
          then Inr (DataFrame (map (\<lambda>x. nested_to_record None (items x)) xs))
          else Inl LibraryError
      | JObj d \<Rightarrow> Inr (DataFrame [nested_to_record None d])
      | _ \<Rightarrow> Inl LibraryError)"

text \<open>\<open>fillna\<close> replaces the missing cells, which for pandas are \<open>NaN\<close> and \<open>None\<close>.\<close>

definition isna :: "cell \<Rightarrow> bool" where
  "isna c = (c = NaN \<or> c = Val JNull)"

definition fillna :: "json \<Rightarrow> dataframe \<Rightarrow> dataframe" where
  "fillna v df = df\<lparr>rows := map (map (\<lambda>c. if isna c then Val v else c)) (rows df)\<rparr>"

text \<open>
  Lines 109 to 115 of the notebook: normalize, rename the columns, fill the missing
  cells with the empty string.
\<close>

definition crypto_data_tbl_df :: "json \<Rightarrow> exn + dataframe" where
  "crypto_data_tbl_df crypto_data_list =
     (case json_normalize crypto_data_list of
        Inl e \<Rightarrow> Inl e
      | Inr df \<Rightarrow> Inr (fillna (JStr '''') (df\<lparr>columns := map sanitize_column (columns df)\<rparr>)))"

text \<open>
  The specification's notion of the flattened key paths of an asset object: the dotted
  paths from the top of the object to each value that is not itself an object.
\<close>

inductive leaf_path :: "dict \<Rightarrow> string \<Rightarrow> bool" where
  leaf: "(k, v) \<in> set d \<Longrightarrow> \<not> is_dict v \<Longrightarrow> leaf_path d k"
| nested: "(k, JObj sub) \<in> set d \<Longrightarrow> leaf_path sub p \<Longrightarrow> leaf_path d (k @ ''.'' @ p)"

definition key_paths :: "dict \<Rightarrow> string set" where
  "key_paths d = {p. leaf_path d p}"

definition two_assets :: "dict list" where
  "two_assets =
     [[(''id'', JNum 1), (''name'', JStr ''Bitcoin''),
       (''quote'', JObj [(''USD'', JObj [(''price'', JNum 9000)])])],
      [(''id'', JNum 2), (''name'', JStr ''Ether''), ('' max.supply'', JNull)]]"

section \<open>Query 1\<close>

text \<open>
  \<^verbatim>\<open>select count(name) as num_coins_gt_8k from cryptocurrency.coin_data
  where quote_usd_price > 8000\<close>
  reads two columns of the table. Both are nullable (the schema comes from
  \<open>bq.Schema.from_data\<close>), so a value is an option with \<open>None\<close> for NULL. A FLOAT64
  price is the real number it denotes; the comparison of two finite floats is the
  comparison of these reals. A row passes \<open>where\<close> only when the comparison is true, which
  it is not for NULL, and \<open>count(name)\<close> counts the passing rows whose name is not NULL.
\<close>

record coin_data_row =
  name :: "string option"
  quote_usd_price :: "real option"

definition price_gt_8000 :: "coin_data_row \<Rightarrow> bool" where
  "price_gt_8000 r = (case quote_usd_price r of None \<Rightarrow> False | Some p \<Rightarrow> 8000 < p)"

definition coins_gt_8k :: "coin_data_row list \<Rightarrow> nat" where
  "coins_gt_8k coin_data =
     length (filter (\<lambda>r. name r \<noteq> None) (filter price_gt_8000 coin_data))"

definition priced :: "real \<Rightarrow> coin_data_row" where
  "priced p = \<lparr>name = Some ''coin'', quote_usd_price = Some p\<rparr>"

definition nameless_9000 :: "coin_data_row" where
  "nameless_9000 = \<lparr>name = None, quote_usd_price = Some 9000\<rparr>"

section \<open>The pipeline cells\<close>

text \<open>
  The notebook is run top to bottom; a cell that raises, or that calls \<open>exit\<close>, ends the
  run, and no later cell executes. Everything outside the notebook is a parameter: the
  \<open>world\<close> answers the calls the run makes (configuration object, HTTP exchange,
  transfers, load job, the environment of the shell cell), and the stores the run starts
  from (local files, bucket objects, warehouse tables) may hold what earlier runs left.
  The run is section I of the notebook, from the setup cell to the shell cleanup; the
  queries of section II are separate cells over the loaded table. The existence check
  and the warehouse calls are taken to return; the exceptions of the run are the ones
  its own statements raise.
\<close>

datatype level = DEBUG | INFO | WARNING | ERROR | CRITICAL

fun levelno :: "level \<Rightarrow> nat" where
  "levelno DEBUG = 10"
| "levelno INFO = 20"
| "levelno WARNING = 30"
| "levelno ERROR = 40"
| "levelno CRITICAL = 50"

type_synonym log_record = "level \<times> string \<times> json list"

text \<open>
  A CSV file is its list of lines, each a list of fields, the header line first; the log
  file is the list of records its handler wrote (level, format string, arguments).
\<close>

datatype file_data = Csv "cell list list" | Log "log_record list"

record table =
  schema :: "string list"
  table_rows :: "cell list list"

text \<open>
  A response carries its status code and what \<open>json.loads(response.text)\<close> gives, with
  \<open>None\<close> where the text is not JSON and \<open>json.loads\<close> raises ValueError.
\<close>

record response =
  status_code :: int
  body :: "json option"

record request =
  req_uri :: json
  req_data :: string
  req_headers :: "(string \<times> json) list"
  req_params :: "(string \<times> string) list"

datatype http_result = Raises string | Returns response

record world =
  gcs_config :: "json option"
  http :: "request \<Rightarrow> http_result"
  gsutil_ok :: "string \<Rightarrow> bool"
  load_job_ok :: bool
  shell_env :: "string \<Rightarrow> string option"

text \<open>
  The trace lists what the run did, each entry with the number of the code cell that did
  it (0 for the setup cell, 1 to 4 for the steps of those numbers, 5 for the log
  transfer, 6 for the shell cleanup).
\<close>

datatype event =
    Logging level string "json list"
  | Print string "json list"
  | GcsRead string
  | HttpGet "int option"
  | ToCsv string
  | GsutilCp string string
  | ObjectExists string bool
  | DatasetCreate string
  | TableCreate string string bool
  | TableLoad string string string
  | SysExit int
  | Rm "string list"

datatype halt = Raised exn | Exited int

record state =
  halted :: "halt option"
  trace :: "(nat \<times> event) list"
  root_level :: level
  response :: "response option"
  coin_data_schema :: "string list option"
  fs :: "string \<rightharpoonup> file_data"
  bucket :: "string \<rightharpoonup> file_data"
  warehouse :: "string \<rightharpoonup> (string \<rightharpoonup> table)"

definition bucket_name :: string where
  "bucket_name = ''coin-market-cap-bucket''"

definition csv_file_name :: string where
  "csv_file_name = ''cmc_data.csv''"

definition log_file_name :: string where
  "log_file_name = ''coinmarketcap.log''"

definition local_path :: string where
  "local_path = ''/tmp/'' @ csv_file_name"

definition bucket_path :: string where
  "bucket_path = ''gs://'' @ bucket_name @ ''/'' @ ''cryptocurrency-data'' @ ''/'' @ csv_file_name"

definition log_bucket_path :: string where
  "log_bucket_path = ''gs://'' @ bucket_name @ ''/'' @ ''config'' @ ''/'' @ log_file_name"

definition config_path :: string where
  "config_path = ''gs://coin-market-cap-bucket/config/config.json''"

definition emit :: "nat \<Rightarrow> event \<Rightarrow> state \<Rightarrow> state" where
  "emit c e st = st\<lparr>trace := trace st @ [(c, e)]\<rparr>"

definition raise :: "exn \<Rightarrow> state \<Rightarrow> state" where
  "raise e st = st\<lparr>halted := Some (Raised e)\<rparr>"

definition sys_exit :: "nat \<Rightarrow> int \<Rightarrow> state \<Rightarrow> state" where
  "sys_exit c n st = (emit c (SysExit n) st)\<lparr>halted := Some (Exited n)\<rparr>"

text \<open>Statements in sequence: the next one runs only while the run has not ended.\<close>

definition guard :: "(state \<Rightarrow> state) \<Rightarrow> state \<Rightarrow> state" where
  "guard f s = (if halted s = None then f s else s)"

definition seq :: "(state \<Rightarrow> state) list \<Rightarrow> state \<Rightarrow> state" where
  "seq stmts st = fold guard stmts st"

subsection \<open>Logging\<close>

text \<open>
  \<^verbatim>\<open>logging.basicConfig(filename=log_file_name, format='%(asctime)s - %(message)s')\<close>
  opens the file for appending, which creates it, and sets the level of the root logger
  only when a \<open>level\<close> is passed. The notebook passes none, so the root logger keeps the
  level it is created with, WARNING. A call on the root logger writes its record when
  the record's level is at least the logger's level and drops it otherwise. The output
  that the notebook records for its log transfer, after a run that completed all four
  steps, shows the log file with 0.0 B.
\<close>

definition log_records :: "state \<Rightarrow> log_record list" where
  "log_records st = (case fs st log_file_name of Some (Log rs) \<Rightarrow> rs | _ \<Rightarrow> [])"

definition basicConfig :: "level option \<Rightarrow> state \<Rightarrow> state" where
  "basicConfig lvl st =
     st\<lparr>root_level := (case lvl of None \<Rightarrow> root_level st | Some l \<Rightarrow> l),
        fs := (fs st)(log_file_name \<mapsto> Log (log_records st))\<rparr>"

definition logging_log :: "nat \<Rightarrow> level \<Rightarrow> string \<Rightarrow> json list \<Rightarrow> state \<Rightarrow> state" where
  "logging_log c lvl msg args st =
     (let st' = emit c (Logging lvl msg args) st
      in if levelno (root_level st') \<le> levelno lvl
         then st'\<lparr>fs := (fs st')(log_file_name \<mapsto> Log (log_records st' @ [(lvl, msg, args)]))\<rparr>
         else st')"

definition logging_info :: "nat \<Rightarrow> string \<Rightarrow> json list \<Rightarrow> state \<Rightarrow> state" where
  "logging_info c msg args st = logging_log c INFO msg args st"

definition logging_error :: "nat \<Rightarrow> string \<Rightarrow> json list \<Rightarrow> state \<Rightarrow> state" where
  "logging_error c msg args st = logging_log c ERROR msg args st"

subsection \<open>Setup cell and step 1: fetch\<close>

definition cell0 :: "state \<Rightarrow> state" where
  "cell0 st =
     logging_info 0 ''############### SCRIPT START ###############'' [] (basicConfig None st)"

text \<open>
  \<open>api_call\<close> returns the response, or prints the exception and falls off its end, which
  returns Python's \<open>None\<close>.
\<close>

definition api_call ::
    "world \<Rightarrow> nat \<Rightarrow> (string \<times> string) list \<Rightarrow> json \<Rightarrow> string \<Rightarrow> json \<Rightarrow> state
      \<Rightarrow> response option \<times> state" where
  "api_call w c querystring uri payload api_key st =
     (let headers = [(''X-CMC_PRO_API_KEY'', api_key), (''Content-Type'', JStr ''application/json'')]
      in case http w \<lparr>req_uri = uri, req_data = payload, req_headers = headers,
                      req_params = querystring\<rparr> of
           Returns r \<Rightarrow> (Some r, emit c (HttpGet (Some (status_code r))) st)
         | Raises e \<Rightarrow> (None, emit c (Print ''{}'' [JStr e]) (emit c (HttpGet None) st)))"

definition querystring :: "(string \<times> string) list" where
  "querystring = [(''limit'', ''5000'')]"

definition payload :: string where
  "payload = ''{'' @ [CHR 0x0A, CHR 0x09] @ ''start: 1,'' @ [CHR 0x0A, CHR 0x09] @ ''convert: ''
       @ [CHR 0x27] @ ''USD'' @ [CHR 0x27, CHR 0x0A] @ ''}''"

text \<open>
  \<open>gcs_config\<close> is the configuration object after \<open>json.loads\<close>, with \<open>None\<close> when the
  object cannot be read or parsed and the cell raises.
\<close>

definition cell1 :: "world \<Rightarrow> state \<Rightarrow> state" where
  "cell1 w st0 =
     (let st = emit 1 (GcsRead config_path) st0
      in case gcs_config w of
           None \<Rightarrow> raise LibraryError st
         | Some config \<Rightarrow>
             (case subscripts config [''api'', ''coinMarketCap'', ''uri''] of
                Inl e \<Rightarrow> raise e st
              | Inr cmc_api_uri \<Rightarrow>
                  (case subscripts config [''api'', ''coinMarketCap'', ''key''] of
                     Inl e \<Rightarrow> raise e st
                   | Inr cmc_api_key \<Rightarrow>
                       (case api_call w 1 querystring cmc_api_uri payload cmc_api_key st of
                          (r, st') \<Rightarrow>
                            logging_info 1 ''Step 1 - Pull CoinMarketCap API data - Complete'' []
                              (st'\<lparr>response := r\<rparr>)))))"

text \<open>
  The exchange of step 1 as the world answers it: \<open>None\<close> when the cell raises before
  the request is sent.
\<close>

definition fetch :: "world \<Rightarrow> http_result option" where
  "fetch w =
     (case gcs_config w of
        None \<Rightarrow> None
      | Some config \<Rightarrow>
          (case subscripts config [''api'', ''coinMarketCap'', ''uri''] of
             Inl e \<Rightarrow> None
           | Inr cmc_api_uri \<Rightarrow>
               (case subscripts config [''api'', ''coinMarketCap'', ''key''] of
                  Inl e \<Rightarrow> None
                | Inr cmc_api_key \<Rightarrow>
                    Some (http w \<lparr>req_uri = cmc_api_uri, req_data = payload,
                            req_headers = [(''X-CMC_PRO_API_KEY'', cmc_api_key),
                                           (''Content-Type'', JStr ''application/json'')],
                            req_params = querystring\<rparr>))))"

subsection \<open>Step 2: save the CSV file\<close>

definition json_loads :: "response \<Rightarrow> exn + json" where
  "json_loads r = (case body r of None \<Rightarrow> Inl ValueError | Some j \<Rightarrow> Inr j)"

definition to_csv :: "nat \<Rightarrow> string \<Rightarrow> dataframe \<Rightarrow> state \<Rightarrow> state" where
  "to_csv c path df st =
     (emit c (ToCsv path) st)
       \<lparr>fs := (fs st)(path \<mapsto> Csv (map (\<lambda>x. Val (JStr x)) (columns df) # rows df))\<rparr>"

text \<open>\<open>bq.Schema.from_data\<close>, as far as the column names; the inferred types are left out.\<close>

definition Schema_from_data :: "dataframe \<Rightarrow> string list" where
  "Schema_from_data df = columns df"

text \<open>
  The two values the cell reads out of the response:
  \<^verbatim>\<open>json.loads(response.text)['status']['error_message']\<close> and
  \<^verbatim>\<open>json.loads(response.text)['data']\<close>.
\<close>

definition error_msg :: "response \<Rightarrow> exn + json" where
  "error_msg r =
     (case json_loads r of Inl e \<Rightarrow> Inl e | Inr j \<Rightarrow> subscripts j [''status'', ''error_message''])"

definition crypto_data_list :: "response \<Rightarrow> exn + json" where
  "crypto_data_list r = (case json_loads r of Inl e \<Rightarrow> Inl e | Inr j \<Rightarrow> subscript j ''data'')"

text \<open>
  \<open>response.status_code\<close> on \<open>None\<close> raises AttributeError. Nothing in the cell catches
  what \<open>json.loads\<close>, the subscripts or pandas raise.
\<close>

definition cell2 :: "state \<Rightarrow> state" where
  "cell2 st =
     (case response st of
        None \<Rightarrow> raise AttributeError st
      | Some r \<Rightarrow>
          if status_code r \<noteq> 200 then
            (case error_msg r of
               Inl e \<Rightarrow> raise e st
             | Inr m \<Rightarrow>
                 logging_error 2 ''Error fetching CoinMarketCap API data. %s'' [m]
                   (emit 2 (Print ''Error fetching CoinMarketCap API data. {}'' [m]) st))
          else
            (case crypto_data_list r of
               Inl e \<Rightarrow> raise e st
             | Inr data \<Rightarrow>
                 (case crypto_data_tbl_df data of
                    Inl e \<Rightarrow> raise e st
                  | Inr df \<Rightarrow>
                      logging_info 2 ''Step 2 - Save CSV File - Complete'' []
                        ((to_csv 2 local_path df st)
                           \<lparr>coin_data_schema := Some (Schema_from_data df)\<rparr>))))"

subsection \<open>Step 3: upload and verify\<close>

text \<open>
  \<open>!gsutil cp src dst\<close> is a shell command: when the source file is missing or the
  transfer fails, the destination stays as it was and the cell goes on. The existence
  check reads the bucket as it then is.
\<close>

definition gsutil_cp :: "world \<Rightarrow> nat \<Rightarrow> string \<Rightarrow> string \<Rightarrow> state \<Rightarrow> state" where
  "gsutil_cp w c src dst st =
     (let st' = emit c (GsutilCp src dst) st
      in case fs st' src of
           None \<Rightarrow> st'
         | Some f \<Rightarrow> if gsutil_ok w dst then st'\<lparr>bucket := (bucket st')(dst \<mapsto> f)\<rparr> else st')"

definition cell3 :: "world \<Rightarrow> state \<Rightarrow> state" where
  "cell3 w st0 =
     (let st1 = gsutil_cp w 3 local_path bucket_path st0;
          found = (bucket st1 bucket_path \<noteq> None);
          st2 = emit 3 (ObjectExists bucket_path found) st1
      in if \<not> found then
           sys_exit 3 1
             (logging_error 3 ''%s was not uploaded to bucket successfully.'' [JStr csv_file_name]
                (emit 3 (Print ''File not successfully uploaded to bucket. Issue logged'' []) st2))
         else logging_info 3 ''Step 3 - Upload to GCS Bucket - Complete'' [] st2)"

subsection \<open>Step 4: load into the warehouse\<close>

text \<open>
  \<open>Dataset.create\<close> leaves an existing dataset alone. \<open>Table.create\<close> with
  \<open>overwrite\<close> deletes an existing table first and then inserts an empty one; without
  \<open>overwrite\<close> it raises on an existing table. \<open>Table.load\<close> runs a load job: when the job
  fails or the source object is missing the table is unchanged, otherwise the lines
  after the skipped leading ones are appended (mode append) or replace the rows (mode
  overwrite).
\<close>

datatype load_mode = Append | Overwrite

definition Dataset_create :: "nat \<Rightarrow> string \<Rightarrow> state \<Rightarrow> state" where
  "Dataset_create c ds st =
     (let st' = emit c (DatasetCreate ds) st
      in case warehouse st' ds of
           None \<Rightarrow> st'\<lparr>warehouse := (warehouse st')(ds \<mapsto> Map.empty)\<rparr>
         | Some tables \<Rightarrow> st')"

definition Table_create :: "nat \<Rightarrow> string \<Rightarrow> string \<Rightarrow> string list \<Rightarrow> bool \<Rightarrow> state \<Rightarrow> state" where
  "Table_create c ds tb sch overwrite st =
     (let st' = emit c (TableCreate ds tb overwrite) st
      in case warehouse st' ds of
           None \<Rightarrow> raise LibraryError st'
         | Some tables \<Rightarrow>
             if tables tb \<noteq> None \<and> \<not> overwrite then raise LibraryError st'
             else st'\<lparr>warehouse :=
                       (warehouse st')(ds \<mapsto> tables(tb \<mapsto> \<lparr>schema = sch, table_rows = []\<rparr>))\<rparr>)"

definition Table_load ::
    "world \<Rightarrow> nat \<Rightarrow> string \<Rightarrow> string \<Rightarrow> string \<Rightarrow> load_mode \<Rightarrow> nat \<Rightarrow> state \<Rightarrow> state" where
  "Table_load w c ds tb source mode skip_leading_rows st =
     (let st' = emit c (TableLoad ds tb source) st
      in case (warehouse st' ds, bucket st' source) of
           (Some tables, Some (Csv lines)) \<Rightarrow>
             (case tables tb of
                Some t \<Rightarrow>
                  if load_job_ok w then
                    st'\<lparr>warehouse := (warehouse st')(ds \<mapsto> tables(tb \<mapsto>
                          t\<lparr>table_rows :=
                               (case mode of Append \<Rightarrow> table_rows t | Overwrite \<Rightarrow> [])
                                 @ drop skip_leading_rows lines\<rparr>))\<rparr>
                  else st'
              | None \<Rightarrow> st')
         | _ \<Rightarrow> st')"

text \<open>Lines 182 to 189: the body of \<open>if response.status_code == 200\<close>.\<close>

definition insert_coin_data :: "world \<Rightarrow> state \<Rightarrow> state" where
  "insert_coin_data w st =
     seq [Dataset_create 4 ''cryptocurrency'',
          (\<lambda>s. case coin_data_schema s of
                 None \<Rightarrow> raise (NameError ''coin_data_schema'') s
               | Some sch \<Rightarrow> Table_create 4 ''cryptocurrency'' ''coin_data'' sch True s),
          Table_load w 4 ''cryptocurrency'' ''coin_data'' bucket_path Append 1] st"

definition cell4 :: "world \<Rightarrow> state \<Rightarrow> state" where
  "cell4 w st =
     (case response st of
        None \<Rightarrow> raise AttributeError st
      | Some r \<Rightarrow>
          seq [(\<lambda>s. if status_code r = 200 then insert_coin_data w s else s),
               logging_info 4 ''Step 4 - Insert into BigQuery Table - Complete'' [],
               logging_info 4 ''############### SCRIPT END ###############'' []] st)"

subsection \<open>Log transfer and cleanup\<close>

definition cell5 :: "world \<Rightarrow> state \<Rightarrow> state" where
  "cell5 w st = gsutil_cp w 5 log_file_name log_bucket_path st"

text \<open>
  The cleanup cell is a \<open>%%bash\<close> cell: the shell expands \<open>$local_path\<close> and
  \<open>$log_file_name\<close> from its own environment, and a variable that is unset or empty
  leaves \<open>rm -f\<close> without operand, which removes nothing and reports no error.
\<close>

definition expand :: "world \<Rightarrow> string \<Rightarrow> string option" where
  "expand w v = (case shell_env w v of None \<Rightarrow> None | Some s \<Rightarrow> if s = [] then None else Some s)"

definition rm_f :: "nat \<Rightarrow> string option \<Rightarrow> state \<Rightarrow> state" where
  "rm_f c operand st =
     (case operand of
        None \<Rightarrow> emit c (Rm []) st
      | Some p \<Rightarrow> (emit c (Rm [p]) st)\<lparr>fs := (fs st)(p := None)\<rparr>)"

definition cell6 :: "world \<Rightarrow> state \<Rightarrow> state" where
  "cell6 w st = rm_f 6 (expand w ''log_file_name'') (rm_f 6 (expand w ''local_path'') st)"

subsection \<open>The run\<close>

definition cells :: "world \<Rightarrow> (state \<Rightarrow> state) list" where
  "cells w = [cell0, cell1 w, cell2, cell3 w, cell4 w, cell5 w, cell6 w]"

text \<open>
  A fresh kernel: nothing has ended the run, nothing is traced, the root logger has its
  initial level, no variable is bound.
\<close>

definition initial ::
    "(string \<rightharpoonup> file_data) \<Rightarrow> (string \<rightharpoonup> file_data) \<Rightarrow> (string \<rightharpoonup> (string \<rightharpoonup> table)) \<Rightarrow> state" where
  "initial fs0 bucket0 warehouse0 =
     \<lparr>halted = None, trace = [], root_level = WARNING, response = None,
      coin_data_schema = None, fs = fs0, bucket = bucket0, warehouse = warehouse0\<rparr>"

definition run ::
    "world \<Rightarrow> (string \<rightharpoonup> file_data) \<Rightarrow> (string \<rightharpoonup> file_data) \<Rightarrow> (string \<rightharpoonup> (string \<rightharpoonup> table)) \<Rightarrow> state" where
  "run w fs0 bucket0 warehouse0 = seq (cells w) (initial fs0 bucket0 warehouse0)"

subsection \<open>Names for trace entries and intermediate results\<close>

definition start_line :: "nat \<times> event" where
  "start_line = (0, Logging INFO ''############### SCRIPT START ###############'' [])"

definition step1_line :: "nat \<times> event" where
  "step1_line = (1, Logging INFO ''Step 1 - Pull CoinMarketCap API data - Complete'' [])"

definition step2_line :: "nat \<times> event" where
  "step2_line = (2, Logging INFO ''Step 2 - Save CSV File - Complete'' [])"

definition step3_line :: "nat \<times> event" where
  "step3_line = (3, Logging INFO ''Step 3 - Upload to GCS Bucket - Complete'' [])"

definition step4_line :: "nat \<times> event" where
  "step4_line = (4, Logging INFO ''Step 4 - Insert into BigQuery Table - Complete'' [])"

definition end_line :: "nat \<times> event" where
  "end_line = (4, Logging INFO ''############### SCRIPT END ###############'' [])"

definition fetch_error :: "json \<Rightarrow> log_record" where
  "fetch_error m = (ERROR, ''Error fetching CoinMarketCap API data. %s'', [m])"

definition upload_error :: log_record where
  "upload_error = (ERROR, ''%s was not uploaded to bucket successfully.'', [JStr csv_file_name])"

definition logged :: "nat \<Rightarrow> log_record \<Rightarrow> nat \<times> event" where
  "logged c rec = (case rec of (lvl, msg, args) \<Rightarrow> (c, Logging lvl msg args))"

text \<open>The CSV file that \<open>to_csv\<close> writes for a frame.\<close>

definition csv_of :: "dataframe \<Rightarrow> file_data" where
  "csv_of df = Csv (map (\<lambda>x. Val (JStr x)) (columns df) # rows df)"

text \<open>
  What the stores hold as the run goes on: the records the log file starts with, the
  bucket after a copy of the CSV file and of the log file, the local files after the
  shell cleanup, and the rows the load job appends.
\<close>

definition prior_records :: "(string \<rightharpoonup> file_data) \<Rightarrow> log_record list" where
  "prior_records f = (case f log_file_name of Some (Log rs) \<Rightarrow> rs | _ \<Rightarrow> [])"

definition csv_copy :: "world \<Rightarrow> file_data option \<Rightarrow> (string \<rightharpoonup> file_data) \<Rightarrow> (string \<rightharpoonup> file_data)" where
  "csv_copy w x b =
     (case x of None \<Rightarrow> b | Some c \<Rightarrow> if gsutil_ok w bucket_path then b(bucket_path \<mapsto> c) else b)"

definition log_copy :: "world \<Rightarrow> file_data \<Rightarrow> (string \<rightharpoonup> file_data) \<Rightarrow> (string \<rightharpoonup> file_data)" where
  "log_copy w c b = (if gsutil_ok w log_bucket_path then b(log_bucket_path \<mapsto> c) else b)"

definition operands :: "string option \<Rightarrow> string list" where
  "operands x = (case x of None \<Rightarrow> [] | Some p \<Rightarrow> [p])"

definition cleanup :: "world \<Rightarrow> (string \<rightharpoonup> file_data) \<Rightarrow> (string \<rightharpoonup> file_data)" where
  "cleanup w files =
     (\<lambda>p. if Some p = expand w ''local_path'' \<or> Some p = expand w ''log_file_name''
          then None else files p)"

definition loaded_rows :: "world \<Rightarrow> file_data option \<Rightarrow> cell list list" where
  "loaded_rows w x =
     (case x of Some (Csv lines) \<Rightarrow> if load_job_ok w then drop 1 lines else [] | _ \<Rightarrow> [])"

text \<open>The state after the setup cell, started on the given stores.\<close>

definition after_setup ::
    "(string \<rightharpoonup> file_data) \<Rightarrow> (string \<rightharpoonup> file_data) \<Rightarrow> (string \<rightharpoonup> (string \<rightharpoonup> table)) \<Rightarrow> state" where
  "after_setup f b wh =
     \<lparr>halted = None, trace = [start_line], root_level = WARNING, response = None,
      coin_data_schema = None,
      fs = f(log_file_name \<mapsto> Log (prior_records f)),
      bucket = b, warehouse = wh\<rparr>"

text \<open>
  Whether the existence check of step 3 finds the object: the copy put it there, or it
  was there before.
\<close>

definition found :: "world \<Rightarrow> state \<Rightarrow> bool" where
  "found w st = ((fs st local_path \<noteq> None \<and> gsutil_ok w bucket_path) \<or> bucket st bucket_path \<noteq> None)"

text \<open>The trace entries of the cells from step 3 on, for each way they can go.\<close>

definition upload_failed :: "(nat \<times> event) list" where
  "upload_failed =
     [(3, GsutilCp local_path bucket_path), (3, ObjectExists bucket_path False),
      (3, Print ''File not successfully uploaded to bucket. Issue logged'' []),
      logged 3 upload_error, (3, SysExit 1)]"

definition upload_verified :: "(nat \<times> event) list" where
  "upload_verified =
     [(3, GsutilCp local_path bucket_path), (3, ObjectExists bucket_path True), step3_line]"

definition load_calls :: "(nat \<times> event) list" where
  "load_calls =
     [(4, DatasetCreate ''cryptocurrency''),
      (4, TableCreate ''cryptocurrency'' ''coin_data'' True),
      (4, TableLoad ''cryptocurrency'' ''coin_data'' bucket_path)]"

definition closing :: "world \<Rightarrow> (nat \<times> event) list" where
  "closing w =
     [step4_line, end_line, (5, GsutilCp log_file_name log_bucket_path),
      (6, Rm (operands (expand w ''local_path''))),
      (6, Rm (operands (expand w ''log_file_name'')))]"

definition fetched :: "response \<Rightarrow> (nat \<times> event) list" where
  "fetched r =
     [start_line, (1, GcsRead config_path), (1, HttpGet (Some (status_code r))), step1_line]"

definition fetch_failed :: "json \<Rightarrow> (nat \<times> event) list" where
  "fetch_failed m =
     [(2, Print ''Error fetching CoinMarketCap API data. {}'' [m]), logged 2 (fetch_error m)]"

definition csv_saved :: "(nat \<times> event) list" where
  "csv_saved = [(2, ToCsv local_path), step2_line]"

text \<open>
  The specification's single operation in place of create-with-overwrite followed by
  append: the table of the dataset gets this schema and exactly these rows, whatever it
  held before.
\<close>

definition replaceTableContents ::
    "string \<Rightarrow> string \<Rightarrow> string list \<Rightarrow> cell list list \<Rightarrow> (string \<rightharpoonup> (string \<rightharpoonup> table))
      \<Rightarrow> (string \<rightharpoonup> (string \<rightharpoonup> table))" where
  "replaceTableContents ds tb sch new_rows wh =
     wh(ds \<mapsto> (case wh ds of None \<Rightarrow> Map.empty | Some tables \<Rightarrow> tables)
                 (tb \<mapsto> \<lparr>schema = sch, table_rows = new_rows\<rparr>))"

subsection \<open>Example worlds\<close>

definition config_ok :: json where
  "config_ok = JObj [(''api'', JObj [(''coinMarketCap'',
      JObj [(''uri'', JStr ''https://pro-api.coinmarketcap.com/v1/cryptocurrency/listings/latest''),
            (''key'', JStr ''secret'')])])]"

definition response_ok :: response where
  "response_ok = \<lparr>status_code = 200,
     body = Some (JObj [(''status'', JObj [(''error_message'', JNull)]),
                        (''data'', JArr (map JObj two_assets))])\<rparr>"

definition response_401 :: response where
  "response_401 = \<lparr>status_code = 401,
     body = Some (JObj [(''status'', JObj [(''error_message'', JStr ''API key missing.'')])])\<rparr>"

definition world_ok :: world where
  "world_ok = \<lparr>gcs_config = Some config_ok, http = (\<lambda>q. Returns response_ok),
     gsutil_ok = (\<lambda>p. True), load_job_ok = True, shell_env = (\<lambda>v. None)\<rparr>"

definition world_401 :: world where
  "world_401 = world_ok\<lparr>http := (\<lambda>q. Returns response_401)\<rparr>"

definition world_down :: world where
  "world_down = world_ok\<lparr>http := (\<lambda>q. Raises ''Connection refused'')\<rparr>"



definition two_assets_frame :: dataframe where
  "two_assets_frame =
     \<lparr>columns = [''id'', ''name'', ''quote_USD_price'', ''max_supply''],
      rows = [[Val (JNum 1), Val (JStr ''Bitcoin''), Val (JNum 9000), Val (JStr '''')],
              [Val (JNum 2), Val (JStr ''Ether''), Val (JStr ''''), Val (JStr '''')]]\<rparr>"

text \<open>What an earlier run left in the bucket, and in the table.\<close>

definition earlier_bucket :: "string \<rightharpoonup> file_data" where
  "earlier_bucket = [bucket_path \<mapsto> Csv [[Val (JStr ''id'')], [Val (JNum 7)]]]"


section \<open>Sanitization is idempotent\<close>

lemma last_dropWhile: "dropWhile P ys \<noteq> [] \<Longrightarrow> last (dropWhile P ys) = last ys"
  by (induction ys) (auto split: if_splits)

lemma dropWhile_rev_dropWhile:
  "dropWhile P (rev (dropWhile P (rev (dropWhile P s)))) = rev (dropWhile P (rev (dropWhile P s)))"
proof -
  define u where "u = dropWhile P s"
  define v where "v = dropWhile P (rev u)"
  have "dropWhile P (rev v) = rev v"
  proof (cases "v = []")
    case True
    then show ?thesis by simp
  next
    case False
    then have un: "u \<noteq> []" unfolding v_def by auto
    then have "\<not> P (hd u)" unfolding u_def by (simp add: hd_dropWhile)
    moreover have "last v = hd u"
      using False un unfolding v_def by (simp add: last_dropWhile last_rev)
    ultimately have "\<not> P (hd (rev v))" using False by (simp add: hd_rev)
    then show ?thesis by (simp add: dropWhile_eq_self_iff)
  qed
  then show ?thesis unfolding v_def u_def .
qed

lemma strip_idem: "strip (strip s) = strip s"
  unfolding strip_def by (simp add: dropWhile_rev_dropWhile)

lemma strip_replace:
  assumes "\<not> isspace old" and "\<not> isspace new"
  shows "strip (replace old new s) = replace old new (strip s)"
proof -
  have e: "(isspace \<circ> (\<lambda>c. if c = old then new else c)) = isspace"
    using assms by (auto simp: fun_eq_iff)
  show ?thesis
    unfolding strip_def replace_def by (simp add: dropWhile_map rev_map e)
qed

lemma replace_idem: "old \<noteq> new \<Longrightarrow> replace old new (replace old new s) = replace old new s"
  by (simp add: replace_def)

lemma replace_removes: "old \<noteq> new \<Longrightarrow> old \<notin> set (replace old new s)"
  by (auto simp: replace_def)

text \<open>
  Claim C7. Sanitizing a column name twice gives the same name as sanitizing it once,
  for every string, and a sanitized name contains no period.
\<close>

theorem sanitize_column_idempotent:
  "sanitize_column (sanitize_column s) = sanitize_column s \<and>
   CHR ''.'' \<notin> set (sanitize_column s)"
proof -
  have sp: "\<not> isspace (CHR ''.'')" "\<not> isspace (CHR ''_'')"
    by (simp_all add: isspace_def)
  show ?thesis
    unfolding sanitize_column_def
    by (simp add: strip_replace[OF sp] strip_idem replace_idem replace_removes)
qed

section \<open>The flattened frame\<close>

lemma leaf_path_Nil [simp]: "\<not> leaf_path [] p"
  by (auto elim: leaf_path.cases)

lemma leaf_path_Cons:
  "leaf_path ((k, v) # kvs) q \<longleftrightarrow>
     (\<not> is_dict v \<and> q = k) \<or>
     (\<exists>p. leaf_path (items v) p \<and> is_dict v \<and> q = k @ ''.'' @ p) \<or>
     leaf_path kvs q"
  (is "?L \<longleftrightarrow> ?R")
proof
  assume ?L
  then show ?R
  proof (cases rule: leaf_path.cases)
    case (leaf v')
    then have "(q = k \<and> v' = v) \<or> (q, v') \<in> set kvs" by auto
    then show ?thesis
    proof
      assume "q = k \<and> v' = v"
      with leaf show ?thesis by simp
    next
      assume "(q, v') \<in> set kvs"
      with leaf have "leaf_path kvs q" by (simp add: leaf_path.leaf)
      then show ?thesis by simp
    qed
  next
    case (nested k' sub p')
    then have "(k' = k \<and> JObj sub = v) \<or> (k', JObj sub) \<in> set kvs" by auto
    then show ?thesis
    proof
      assume e: "k' = k \<and> JObj sub = v"
      then have "items v = sub" "is_dict v" by auto
      with nested e have "leaf_path (items v) p' \<and> is_dict v \<and> q = k @ ''.'' @ p'" by simp
      then show ?thesis by blast
    next
      assume "(k', JObj sub) \<in> set kvs"
      then have "leaf_path kvs (k' @ ''.'' @ p')" using nested(3) by (rule leaf_path.nested)
      then show ?thesis using nested(1) by simp
    qed
  qed
next
  assume ?R
  then consider (a) "\<not> is_dict v" "q = k"
    | (b) p where "leaf_path (items v) p" "is_dict v" "q = k @ ''.'' @ p"
    | (c) "leaf_path kvs q" by blast
  then show ?L
  proof cases
    case a
    have "(k, v) \<in> set ((k, v) # kvs)" by simp
    then have "leaf_path ((k, v) # kvs) k" using a(1) by (rule leaf_path.leaf)
    then show ?thesis using a(2) by simp
  next
    case b
    then obtain sub where v: "v = JObj sub" by (cases v) auto
    have "(k, JObj sub) \<in> set ((k, v) # kvs)" using v by simp
    moreover have "leaf_path sub p" using b(1) v by simp
    ultimately have "leaf_path ((k, v) # kvs) (k @ ''.'' @ p)" by (rule leaf_path.nested)
    then show ?thesis using b(3) by simp
  next
    case c
    then show ?thesis
    proof (cases rule: leaf_path.cases)
      case (leaf v')
      then have "(q, v') \<in> set ((k, v) # kvs)" by simp
      then show ?thesis using leaf(2) by (rule leaf_path.leaf)
    next
      case (nested k' sub p')
      then have "(k', JObj sub) \<in> set ((k, v) # kvs)" by simp
      then have "leaf_path ((k, v) # kvs) (k' @ ''.'' @ p')"
        using nested(3) by (rule leaf_path.nested)
      then show ?thesis using nested(1) by simp
    qed
  qed
qed

lemma newkey_nested: "newkey (Some (newkey prefix k)) p = newkey prefix (k @ ''.'' @ p)"
  by (simp add: newkey_def split: option.splits)

lemma newkey_None [simp]: "newkey None k = k"
  by (simp add: newkey_def)

lemma keys_nested_to_record:
  "fst ` set (nested_to_record prefix d) = newkey prefix ` key_paths d"
proof (induction prefix d rule: nested_to_record.induct)
  case (1 prefix)
  then show ?case by (simp add: key_paths_def)
next
  case (2 prefix k sub kvs)
  have "key_paths ((k, JObj sub) # kvs) = (\<lambda>p. k @ ''.'' @ p) ` key_paths sub \<union> key_paths kvs"
    by (auto simp: key_paths_def leaf_path_Cons)
  then show ?case using 2 by (simp add: image_Un image_image newkey_nested)
qed (auto simp: key_paths_def leaf_path_Cons)

lemma set_columns_DataFrame: "set (columns (DataFrame recs)) = (\<Union>r\<in>set recs. fst ` set r)"
  by (auto simp: DataFrame_def Let_def)

lemma map_of_rev_None: "map_of (rev r) c = None \<longleftrightarrow> c \<notin> fst ` set r"
  by (simp add: map_of_eq_None_iff)

lemma two_assets_normalized:
  "crypto_data_tbl_df (JArr (map JObj two_assets)) = Inr two_assets_frame"
  by (simp add: crypto_data_tbl_df_def json_normalize_def two_assets_def DataFrame_def
      fillna_def isna_def sanitize_column_def strip_def replace_def isspace_def newkey_def
      two_assets_frame_def)

text \<open>
  Claim C5. For a data array of N asset objects the flattener succeeds, the frame has
  exactly N rows, and the set of its column names is the union, over the N objects, of
  the sanitized flattened key paths of each object.
\<close>

theorem flattener_rows_and_columns:
  "\<exists>df. crypto_data_tbl_df (JArr (map JObj ds)) = Inr df \<and>
        length (rows df) = length ds \<and>
        set (columns df) = (\<Union>d\<in>set ds. sanitize_column ` key_paths d)"
proof -
  have all: "list_all is_dict (map JObj ds)" by (simp add: list_all_iff)
  have m: "map (\<lambda>x. nested_to_record None (items x)) (map JObj ds) = map (nested_to_record None) ds"
    by simp
  show ?thesis
    unfolding crypto_data_tbl_df_def json_normalize_def
    by (simp add: all m fillna_def set_columns_DataFrame keys_nested_to_record image_UN,
        simp add: DataFrame_def Let_def)
qed

theorem flattener_rows_and_columns_witness:
  "(\<Union>d\<in>set two_assets. sanitize_column ` key_paths d) =
     {''id'', ''name'', ''quote_USD_price'', ''max_supply''} \<and> length two_assets = 2"
proof -
  obtain df where df: "crypto_data_tbl_df (JArr (map JObj two_assets)) = Inr df"
    and n: "length (rows df) = length two_assets"
    and c: "set (columns df) = (\<Union>d\<in>set two_assets. sanitize_column ` key_paths d)"
    using flattener_rows_and_columns[of two_assets] by blast
  have "columns df = [''id'', ''name'', ''quote_USD_price'', ''max_supply'']"
    and "length (rows df) = 2"
    using df by (auto simp: two_assets_normalized two_assets_frame_def)
  then show ?thesis using n c by auto
qed

text \<open>
  Claim C6. The flattener never fails on a batch of asset objects; every row of the
  frame has one cell for every column; no cell is left missing; and where a record has
  no value under the key path of a column, its cell in that column is the empty string.
\<close>

theorem missing_field_is_empty_string:
  "\<exists>df0 df. json_normalize (JArr (map JObj ds)) = Inr df0 \<and>
     crypto_data_tbl_df (JArr (map JObj ds)) = Inr df \<and>
     columns df = map sanitize_column (columns df0) \<and>
     length (rows df) = length ds \<and>
     (\<forall>i<length ds.
        length (rows df ! i) = length (columns df) \<and>
        NaN \<notin> set (rows df ! i) \<and>
        (\<forall>j<length (columns df0).
           columns df0 ! j \<notin> key_paths (ds ! i) \<longrightarrow> rows df ! i ! j = Val (JStr '''')))"
proof -
  define recs where "recs = map (nested_to_record None) ds"
  define df0 where "df0 = DataFrame recs"
  define df where "df = fillna (JStr '''') (df0\<lparr>columns := map sanitize_column (columns df0)\<rparr>)"
  have all: "list_all is_dict (map JObj ds)" by (simp add: list_all_iff)
  have m: "map (\<lambda>x. nested_to_record None (items x)) (map JObj ds) = recs"
    by (simp add: recs_def)
  have n: "json_normalize (JArr (map JObj ds)) = Inr df0"
    unfolding json_normalize_def df0_def using all m by (simp del: list.map_comp map_map)
  have c: "crypto_data_tbl_df (JArr (map JObj ds)) = Inr df"
    unfolding crypto_data_tbl_df_def by (simp add: n df_def)
  have cols: "columns df = map sanitize_column (columns df0)"
    by (simp add: df_def fillna_def)
  have len: "length (rows df) = length ds"
    by (simp add: df_def fillna_def df0_def DataFrame_def Let_def recs_def)
  have row: "length (rows df ! i) = length (columns df) \<and> NaN \<notin> set (rows df ! i) \<and>
     (\<forall>j<length (columns df0).
        columns df0 ! j \<notin> key_paths (ds ! i) \<longrightarrow> rows df ! i ! j = Val (JStr ''''))"
    if i: "i < length ds" for i
  proof -
    have keys: "fst ` set (recs ! i) = key_paths (ds ! i)"
      using i keys_nested_to_record[of None "ds ! i"] by (simp add: recs_def image_def)
    have r: "rows df ! i =
       map (\<lambda>c. if isna c then Val (JStr '''') else c)
         (map (\<lambda>c. case map_of (rev (recs ! i)) c of None \<Rightarrow> NaN | Some v \<Rightarrow> Val v) (columns df0))"
      using i by (simp add: df_def fillna_def df0_def DataFrame_def Let_def recs_def)
    have a: "length (rows df ! i) = length (columns df)" by (simp add: r cols)
    have b: "NaN \<notin> set (rows df ! i)" by (auto simp: r isna_def)
    have d: "rows df ! i ! j = Val (JStr '''')"
      if "j < length (columns df0)" "columns df0 ! j \<notin> key_paths (ds ! i)" for j
    proof -
      have "map_of (rev (recs ! i)) (columns df0 ! j) = None"
        using that(2) keys by (simp add: map_of_rev_None)
      then show ?thesis using that(1) by (simp add: r isna_def)
    qed
    show ?thesis using a b d by blast
  qed
  show ?thesis using n c cols len row by blast
qed

theorem missing_field_is_empty_string_witness:
  "\<exists>df. crypto_data_tbl_df (JArr (map JObj two_assets)) = Inr df \<and>
        columns df ! 2 = ''quote_USD_price'' \<and> rows df ! 1 ! 2 = Val (JStr '''') \<and>
        length (rows df ! 1) = 4"
proof -
  obtain df0 df where n: "json_normalize (JArr (map JObj two_assets)) = Inr df0"
    and c: "crypto_data_tbl_df (JArr (map JObj two_assets)) = Inr df"
    and cols: "columns df = map sanitize_column (columns df0)"
    and r: "\<forall>i<length two_assets.
        length (rows df ! i) = length (columns df) \<and>
        NaN \<notin> set (rows df ! i) \<and>
        (\<forall>j<length (columns df0).
           columns df0 ! j \<notin> key_paths (two_assets ! i) \<longrightarrow> rows df ! i ! j = Val (JStr ''''))"
    using missing_field_is_empty_string[of two_assets] by blast
  have df0: "columns df0 = [''id'', ''name'', ''quote.USD.price'', '' max.supply'']"
    using n by (auto simp: json_normalize_def two_assets_def DataFrame_def newkey_def)
  have k: "''quote.USD.price'' \<notin> key_paths (two_assets ! 1)"
    by (simp add: two_assets_def key_paths_def leaf_path_Cons)
  have "1 < length two_assets" by (simp add: two_assets_def)
  with r have r1: "length (rows df ! 1) = length (columns df)"
    and r2: "\<forall>j<length (columns df0).
           columns df0 ! j \<notin> key_paths (two_assets ! 1) \<longrightarrow> rows df ! 1 ! j = Val (JStr '''')"
    by blast+
  have "rows df ! 1 ! 2 = Val (JStr '''')"
    using r2 k by (simp add: df0)
  moreover have "columns df ! 2 = ''quote_USD_price''" and "length (columns df) = 4"
    using c by (auto simp: two_assets_normalized two_assets_frame_def)
  ultimately show ?thesis using c r1 by simp
qed

section \<open>Query 1 counts named rows\<close>

lemma priced_simps [simp]:
  "name (priced p) = Some ''coin''" "quote_usd_price (priced p) = Some p"
  by (simp_all add: priced_def)

text \<open>
  A row without a name priced 9000 is a row whose price is above 8000, and the query
  does not count it.
\<close>

theorem count_name_counterexample:
  "coins_gt_8k [nameless_9000] = 0 \<and>
   length (filter (\<lambda>r. \<exists>p. quote_usd_price r = Some p \<and> 8000 < p) [nameless_9000]) = 1"
  by (simp add: coins_gt_8k_def price_gt_8000_def nameless_9000_def)

text \<open>
  Claim C8, amended. Query 1 returns the number of rows that have a name and whose
  price is strictly greater than 8000; when every row has a name this is the number of
  rows priced above 8000. A named row priced exactly 8000 adds nothing to the count, a
  named row priced 8000.01 adds one, and over named rows priced 100, 9000, 8000.01 and
  7999 the result is 2.
\<close>

theorem coins_gt_8k_counts_named:
  "coins_gt_8k coin_data =
     length (filter (\<lambda>r. name r \<noteq> None \<and> (\<exists>p. quote_usd_price r = Some p \<and> 8000 < p)) coin_data) \<and>
   ((\<forall>r\<in>set coin_data. name r \<noteq> None) \<longrightarrow>
      coins_gt_8k coin_data =
        length (filter (\<lambda>r. \<exists>p. quote_usd_price r = Some p \<and> 8000 < p) coin_data)) \<and>
   coins_gt_8k (priced 8000 # coin_data) = coins_gt_8k coin_data \<and>
   coins_gt_8k (priced 8000.01 # coin_data) = Suc (coins_gt_8k coin_data) \<and>
   coins_gt_8k (map priced [100, 9000, 8000.01, 7999]) = 2"
proof -
  have p: "price_gt_8000 = (\<lambda>r. \<exists>p. quote_usd_price r = Some p \<and> 8000 < p)"
    by (auto simp: price_gt_8000_def fun_eq_iff split: option.splits)
  have a: "coins_gt_8k coin_data =
     length (filter (\<lambda>r. name r \<noteq> None \<and> (\<exists>p. quote_usd_price r = Some p \<and> 8000 < p)) coin_data)"
    unfolding coins_gt_8k_def p by (simp add: conj_commute)
  have b: "coins_gt_8k coin_data =
        length (filter (\<lambda>r. \<exists>p. quote_usd_price r = Some p \<and> 8000 < p) coin_data)"
    if "\<forall>r\<in>set coin_data. name r \<noteq> None"
  proof -
    have "filter (\<lambda>r. name r \<noteq> None) (filter price_gt_8000 coin_data) = filter price_gt_8000 coin_data"
      by (rule filter_True) (use that in auto)
    then show ?thesis unfolding coins_gt_8k_def p by simp
  qed
  have c: "coins_gt_8k (priced 8000 # coin_data) = coins_gt_8k coin_data"
    "coins_gt_8k (priced 8000.01 # coin_data) = Suc (coins_gt_8k coin_data)"
    "coins_gt_8k (map priced [100, 9000, 8000.01, 7999]) = 2"
    by (simp_all add: coins_gt_8k_def price_gt_8000_def)
  show ?thesis using a b c by blast
qed

theorem coins_gt_8k_counts_named_witness:
  "length (filter (\<lambda>r. \<exists>p. quote_usd_price r = Some p \<and> 8000 < p)
      (map priced [100, 9000, 8000.01, 7999])) = 2"
proof -
  have "\<forall>r\<in>set (map priced [100, 9000, 8000.01, 7999]). name r \<noteq> None"
    by simp
  then show ?thesis
    using coins_gt_8k_counts_named[of "map priced [100, 9000, 8000.01, 7999]"] by simp
qed

section \<open>What each cell does\<close>

lemma guard_halted: "halted s \<noteq> None \<Longrightarrow> guard f s = s"
  by (auto simp: guard_def)

lemma guard_running: "halted s = None \<Longrightarrow> guard f s = f s"
  by (simp add: guard_def)

lemma seq_Nil: "seq [] st = st"
  by (simp add: seq_def)

lemma seq_Cons: "seq (f # stmts) st = seq stmts (guard f st)"
  by (simp add: seq_def)

lemma run_unfold:
  "run w f b wh =
     guard (cell6 w) (guard (cell5 w) (guard (cell4 w) (guard (cell3 w)
       (guard cell2 (guard (cell1 w) (guard cell0 (initial f b wh)))))))"
  by (simp add: run_def cells_def seq_Cons seq_Nil)

lemma logging_info_dropped:
  "root_level st = WARNING \<Longrightarrow> logging_info c msg args st = emit c (Logging INFO msg args) st"
  by (simp add: logging_info_def logging_log_def emit_def)

lemma logging_error_written:
  "root_level st = WARNING \<Longrightarrow>
   logging_error c msg args st =
     st\<lparr>trace := trace st @ [(c, Logging ERROR msg args)],
        fs := (fs st)(log_file_name \<mapsto> Log (log_records st @ [(ERROR, msg, args)]))\<rparr>"
  by (simp add: logging_error_def logging_log_def emit_def log_records_def)

lemma cell0_initial: "guard cell0 (initial f b wh) = after_setup f b wh"
  by (simp add: guard_def cell0_def initial_def after_setup_def basicConfig_def
      logging_info_def logging_log_def emit_def log_records_def start_line_def
      prior_records_def)

lemma cell1_no_request:
  "fetch w = None \<Longrightarrow>
   \<exists>e. cell1 w st = st\<lparr>trace := trace st @ [(1, GcsRead config_path)],
                        halted := Some (Raised e)\<rparr>"
  by (auto simp: fetch_def cell1_def emit_def raise_def split: option.splits sum.splits)

lemma cell1_raises:
  "fetch w = Some (Raises m) \<Longrightarrow> root_level st = WARNING \<Longrightarrow>
   cell1 w st = st\<lparr>trace := trace st @ [(1, GcsRead config_path), (1, HttpGet None),
                                         (1, Print ''{}'' [JStr m]), step1_line],
                   response := None\<rparr>"
  by (auto simp: fetch_def cell1_def api_call_def emit_def logging_info_def logging_log_def
      step1_line_def split: option.splits sum.splits)

lemma cell1_returns:
  "fetch w = Some (Returns r) \<Longrightarrow> root_level st = WARNING \<Longrightarrow>
   cell1 w st = st\<lparr>trace := trace st @ [(1, GcsRead config_path),
                                         (1, HttpGet (Some (status_code r))), step1_line],
                   response := Some r\<rparr>"
  by (auto simp: fetch_def cell1_def api_call_def emit_def logging_info_def logging_log_def
      step1_line_def split: option.splits sum.splits)

lemma cell2_no_response:
  "response st = None \<Longrightarrow> cell2 st = st\<lparr>halted := Some (Raised AttributeError)\<rparr>"
  by (simp add: cell2_def raise_def)

lemma cell2_raises:
  assumes "response st = Some r"
    and "(status_code r \<noteq> 200 \<and> error_msg r = Inl e) \<or>
         (status_code r = 200 \<and> crypto_data_list r = Inl e) \<or>
         (status_code r = 200 \<and> crypto_data_list r = Inr d \<and> crypto_data_tbl_df d = Inl e)"
  shows "cell2 st = st\<lparr>halted := Some (Raised e)\<rparr>"
  using assms by (auto simp: cell2_def raise_def)

lemma cell2_error_logged:
  assumes "response st = Some r" and "status_code r \<noteq> 200" and "error_msg r = Inr m"
    and "root_level st = WARNING"
  shows "cell2 st =
     st\<lparr>trace := trace st @ [(2, Print ''Error fetching CoinMarketCap API data. {}'' [m]),
                              logged 2 (fetch_error m)],
        fs := (fs st)(log_file_name \<mapsto> Log (log_records st @ [fetch_error m]))\<rparr>"
  using assms
  by (simp add: cell2_def logging_error_def logging_log_def emit_def log_records_def
      logged_def fetch_error_def)

lemma cell2_saved:
  assumes "response st = Some r" and "status_code r = 200" and "crypto_data_list r = Inr d"
    and "crypto_data_tbl_df d = Inr df" and "root_level st = WARNING"
  shows "cell2 st =
     st\<lparr>trace := trace st @ [(2, ToCsv local_path), step2_line],
        fs := (fs st)(local_path \<mapsto> csv_of df),
        coin_data_schema := Some (columns df)\<rparr>"
  using assms
  by (simp add: cell2_def logging_info_def logging_log_def emit_def to_csv_def
      Schema_from_data_def csv_of_def step2_line_def)

lemma gsutil_cp_eq:
  "gsutil_cp w c src dst st =
     st\<lparr>trace := trace st @ [(c, GsutilCp src dst)],
        bucket := (case fs st src of
                     None \<Rightarrow> bucket st
                   | Some x \<Rightarrow> if gsutil_ok w dst then (bucket st)(dst \<mapsto> x) else bucket st)\<rparr>"
  by (cases "fs st src") (simp_all add: gsutil_cp_def emit_def)

lemma found_after_copy:
  "(bucket (gsutil_cp w c local_path bucket_path st) bucket_path \<noteq> None) = found w st"
  by (cases "fs st local_path") (simp_all add: gsutil_cp_eq found_def)

lemma cell3_absent:
  assumes "\<not> found w st" and "root_level st = WARNING"
  shows "cell3 w st =
     st\<lparr>trace := trace st @ [(3, GsutilCp local_path bucket_path),
                              (3, ObjectExists bucket_path False),
                              (3, Print ''File not successfully uploaded to bucket. Issue logged'' []),
                              logged 3 upload_error, (3, SysExit 1)],
        fs := (fs st)(log_file_name \<mapsto> Log (log_records st @ [upload_error])),
        halted := Some (Exited 1)\<rparr>"
proof -
  have b: "(case fs st local_path of
              None \<Rightarrow> bucket st
            | Some x \<Rightarrow> if gsutil_ok w bucket_path then (bucket st)(bucket_path \<mapsto> x)
                       else bucket st) = bucket st"
    using assms(1) by (cases "fs st local_path") (simp_all add: found_def)
  show ?thesis
    unfolding cell3_def Let_def found_after_copy
    using assms
    by (simp add: gsutil_cp_eq b sys_exit_def logging_error_def logging_log_def emit_def
        log_records_def logged_def upload_error_def)
qed

lemma cell3_present:
  assumes "found w st" and "root_level st = WARNING"
  shows "cell3 w st =
     st\<lparr>trace := trace st @ [(3, GsutilCp local_path bucket_path),
                              (3, ObjectExists bucket_path True), step3_line],
        bucket := (case fs st local_path of
                     None \<Rightarrow> bucket st
                   | Some c \<Rightarrow> if gsutil_ok w bucket_path then (bucket st)(bucket_path \<mapsto> c)
                              else bucket st)\<rparr>"
  unfolding cell3_def Let_def found_after_copy
  using assms
  by (simp add: gsutil_cp_eq logging_info_def logging_log_def emit_def step3_line_def)

lemma cell4_skipped:
  assumes "response st = Some r" and "status_code r \<noteq> 200" and "root_level st = WARNING"
    and "halted st = None"
  shows "cell4 w st = st\<lparr>trace := trace st @ [step4_line, end_line]\<rparr>"
  using assms
  by (simp add: cell4_def seq_Cons seq_Nil guard_def logging_info_def logging_log_def emit_def
      step4_line_def end_line_def)

lemma Dataset_create_eq:
  "Dataset_create c ds st =
     st\<lparr>trace := trace st @ [(c, DatasetCreate ds)],
        warehouse := (warehouse st)(ds \<mapsto> (case warehouse st ds of
                                              None \<Rightarrow> Map.empty | Some tables \<Rightarrow> tables))\<rparr>"
proof (cases "warehouse st ds")
  case None
  then show ?thesis by (simp add: Dataset_create_def emit_def)
next
  case (Some tables)
  then have "(warehouse st)(ds \<mapsto> tables) = warehouse st" by (simp add: map_upd_triv)
  then show ?thesis using Some by (simp add: Dataset_create_def emit_def)
qed

lemma Table_create_overwrite:
  assumes "warehouse st ds = Some tables"
  shows "Table_create c ds tb sch True st =
     st\<lparr>trace := trace st @ [(c, TableCreate ds tb True)],
        warehouse := (warehouse st)(ds \<mapsto> tables(tb \<mapsto> \<lparr>schema = sch, table_rows = []\<rparr>))\<rparr>"
  using assms by (simp add: Table_create_def emit_def)

lemma Table_load_append:
  assumes "warehouse st ds = Some tables" and "tables tb = Some t"
  shows "Table_load w c ds tb src Append n st =
     st\<lparr>trace := trace st @ [(c, TableLoad ds tb src)],
        warehouse := (warehouse st)(ds \<mapsto> tables(tb \<mapsto>
           t\<lparr>table_rows := table_rows t @
                (case bucket st src of
                   Some (Csv lines) \<Rightarrow> if load_job_ok w then drop n lines else []
                 | _ \<Rightarrow> [])\<rparr>))\<rparr>"
proof -
  have same: "(warehouse st)(ds \<mapsto> tables(tb \<mapsto> t)) = warehouse st"
    using assms by (simp add: map_upd_triv)
  show ?thesis
  proof (cases "bucket st src")
    case None
    then show ?thesis using assms same by (simp add: Table_load_def emit_def)
  next
    case (Some x)
    show ?thesis
    proof (cases x)
      case (Csv lines)
      then show ?thesis using assms same Some by (simp add: Table_load_def emit_def)
    next
      case (Log rs)
      then show ?thesis using assms same Some by (simp add: Table_load_def emit_def)
    qed
  qed
qed

lemma insert_coin_data_eq:
  assumes "coin_data_schema st = Some sch" and "halted st = None"
  shows "insert_coin_data w st =
     st\<lparr>trace := trace st @ [(4, DatasetCreate ''cryptocurrency''),
                              (4, TableCreate ''cryptocurrency'' ''coin_data'' True),
                              (4, TableLoad ''cryptocurrency'' ''coin_data'' bucket_path)],
        warehouse := replaceTableContents ''cryptocurrency'' ''coin_data'' sch
                       (case bucket st bucket_path of
                          Some (Csv lines) \<Rightarrow> if load_job_ok w then drop 1 lines else []
                        | _ \<Rightarrow> [])
                       (warehouse st)\<rparr>"
proof -
  define tables where
    "tables = (case warehouse st ''cryptocurrency'' of None \<Rightarrow> Map.empty | Some ts \<Rightarrow> ts)"
  define s1 where "s1 = Dataset_create 4 ''cryptocurrency'' st"
  define s2 where "s2 = Table_create 4 ''cryptocurrency'' ''coin_data'' sch True s1"
  have s1: "s1 = st\<lparr>trace := trace st @ [(4, DatasetCreate ''cryptocurrency'')],
                     warehouse := (warehouse st)(''cryptocurrency'' \<mapsto> tables)\<rparr>"
    by (simp add: s1_def Dataset_create_eq tables_def)
  have w1: "warehouse s1 ''cryptocurrency'' = Some tables" by (simp add: s1)
  have s2: "s2 = s1\<lparr>trace := trace s1 @ [(4, TableCreate ''cryptocurrency'' ''coin_data'' True)],
                     warehouse := (warehouse s1)(''cryptocurrency'' \<mapsto>
                        tables(''coin_data'' \<mapsto> \<lparr>schema = sch, table_rows = []\<rparr>))\<rparr>"
    unfolding s2_def by (rule Table_create_overwrite[OF w1])
  have w2: "warehouse s2 ''cryptocurrency'' =
      Some (tables(''coin_data'' \<mapsto> \<lparr>schema = sch, table_rows = []\<rparr>))"
    by (simp add: s2)
  have t2: "(tables(''coin_data'' \<mapsto> \<lparr>schema = sch, table_rows = []\<rparr>)) ''coin_data'' =
      Some \<lparr>schema = sch, table_rows = []\<rparr>" by simp
  have h1: "halted s1 = None" "coin_data_schema s1 = Some sch" using assms by (simp_all add: s1)
  have h2: "halted s2 = None" using h1 by (simp add: s2)
  have "insert_coin_data w st =
      Table_load w 4 ''cryptocurrency'' ''coin_data'' bucket_path Append 1 s2"
    using assms h1 h2
    by (simp add: insert_coin_data_def seq_Cons seq_Nil guard_def s1_def[symmetric]
        s2_def[symmetric])
  also have "\<dots> = s2\<lparr>trace := trace s2 @ [(4, TableLoad ''cryptocurrency'' ''coin_data'' bucket_path)],
        warehouse := (warehouse s2)(''cryptocurrency'' \<mapsto>
          (tables(''coin_data'' \<mapsto> \<lparr>schema = sch, table_rows = []\<rparr>))(''coin_data'' \<mapsto>
           \<lparr>schema = sch, table_rows = []\<rparr>\<lparr>table_rows := table_rows \<lparr>schema = sch, table_rows = []\<rparr> @
                (case bucket s2 bucket_path of
                   Some (Csv lines) \<Rightarrow> if load_job_ok w then drop 1 lines else []
                 | _ \<Rightarrow> [])\<rparr>))\<rparr>"
    by (rule Table_load_append[OF w2 t2])
  also have "\<dots> = st\<lparr>trace := trace st @ [(4, DatasetCreate ''cryptocurrency''),
                              (4, TableCreate ''cryptocurrency'' ''coin_data'' True),
                              (4, TableLoad ''cryptocurrency'' ''coin_data'' bucket_path)],
        warehouse := replaceTableContents ''cryptocurrency'' ''coin_data'' sch
                       (case bucket st bucket_path of
                          Some (Csv lines) \<Rightarrow> if load_job_ok w then drop 1 lines else []
                        | _ \<Rightarrow> [])
                       (warehouse st)\<rparr>"
    by (simp add: s2 s1 replaceTableContents_def tables_def)
  finally show ?thesis .
qed

lemma cell4_loaded:
  assumes "response st = Some r" and "status_code r = 200" and "root_level st = WARNING"
    and "halted st = None" and "coin_data_schema st = Some sch"
  shows "cell4 w st =
     st\<lparr>trace := trace st @ [(4, DatasetCreate ''cryptocurrency''),
                              (4, TableCreate ''cryptocurrency'' ''coin_data'' True),
                              (4, TableLoad ''cryptocurrency'' ''coin_data'' bucket_path),
                              step4_line, end_line],
        warehouse := replaceTableContents ''cryptocurrency'' ''coin_data'' sch
                       (case bucket st bucket_path of
                          Some (Csv lines) \<Rightarrow> if load_job_ok w then drop 1 lines else []
                        | _ \<Rightarrow> [])
                       (warehouse st)\<rparr>"
  using assms
  by (simp add: cell4_def seq_Cons seq_Nil guard_def insert_coin_data_eq logging_info_def
      logging_log_def emit_def step4_line_def end_line_def)

lemma cell5_eq:
  "cell5 w st =
     st\<lparr>trace := trace st @ [(5, GsutilCp log_file_name log_bucket_path)],
        bucket := (case fs st log_file_name of
                     None \<Rightarrow> bucket st
                   | Some c \<Rightarrow> if gsutil_ok w log_bucket_path
                              then (bucket st)(log_bucket_path \<mapsto> c) else bucket st)\<rparr>"
  by (auto simp: cell5_def gsutil_cp_def emit_def Let_def split: option.splits)

lemma cell6_eq:
  "cell6 w st =
     st\<lparr>trace := trace st @ [(6, Rm (operands (expand w ''local_path''))),
                              (6, Rm (operands (expand w ''log_file_name'')))],
        fs := (\<lambda>p. if Some p = expand w ''local_path'' \<or> Some p = expand w ''log_file_name''
                    then None else fs st p)\<rparr>"
  by (auto simp: cell6_def rm_f_def emit_def operands_def fun_eq_iff split: option.splits)

lemma run_no_request:
  assumes "fetch w = None"
  shows "\<exists>e. run w f b wh =
     (after_setup f b wh)\<lparr>trace := [start_line, (1, GcsRead config_path)],
                           halted := Some (Raised e)\<rparr>"
proof -
  obtain e where c1: "cell1 w (after_setup f b wh) =
      (after_setup f b wh)\<lparr>trace := trace (after_setup f b wh) @ [(1, GcsRead config_path)],
                            halted := Some (Raised e)\<rparr>"
    using cell1_no_request[OF assms] by blast
  have s1: "guard (cell1 w) (after_setup f b wh) =
      (after_setup f b wh)\<lparr>trace := [start_line, (1, GcsRead config_path)],
                            halted := Some (Raised e)\<rparr>"
    by (simp add: guard_def c1) (simp add: after_setup_def)
  have "run w f b wh =
      (after_setup f b wh)\<lparr>trace := [start_line, (1, GcsRead config_path)],
                            halted := Some (Raised e)\<rparr>"
    unfolding run_unfold cell0_initial s1 by (simp add: guard_halted)
  then show ?thesis by blast
qed

lemma run_transport_error:
  assumes "fetch w = Some (Raises m)"
  shows "run w f b wh =
     (after_setup f b wh)\<lparr>trace := [start_line, (1, GcsRead config_path), (1, HttpGet None),
                                     (1, Print ''{}'' [JStr m]), step1_line],
                           halted := Some (Raised AttributeError)\<rparr>"
proof -
  define s1 where "s1 = (after_setup f b wh)\<lparr>trace := [start_line, (1, GcsRead config_path),
      (1, HttpGet None), (1, Print ''{}'' [JStr m]), step1_line]\<rparr>"
  have g1: "guard (cell1 w) (after_setup f b wh) = s1"
    using cell1_raises[OF assms, of "after_setup f b wh"]
    by (simp add: guard_def s1_def after_setup_def)
  have g2: "guard cell2 s1 = s1\<lparr>halted := Some (Raised AttributeError)\<rparr>"
    by (simp add: guard_def cell2_no_response s1_def after_setup_def)
  show ?thesis
    unfolding run_unfold cell0_initial g1 g2 by (simp add: guard_halted s1_def)
qed

lemma fetched_state:
  assumes "fetch w = Some (Returns r)"
  shows "guard (cell1 w) (after_setup f b wh) =
     (after_setup f b wh)\<lparr>trace := fetched r, response := Some r\<rparr>"
  using cell1_returns[OF assms, of "after_setup f b wh"]
  by (simp add: guard_def after_setup_def fetched_def)

lemma run_cell2_raises:
  assumes "fetch w = Some (Returns r)"
    and "(status_code r \<noteq> 200 \<and> error_msg r = Inl e) \<or>
         (status_code r = 200 \<and> crypto_data_list r = Inl e) \<or>
         (status_code r = 200 \<and> crypto_data_list r = Inr d \<and> crypto_data_tbl_df d = Inl e)"
  shows "run w f b wh =
     (after_setup f b wh)\<lparr>trace := fetched r, response := Some r,
                           halted := Some (Raised e)\<rparr>"
proof -
  define s1 where "s1 = (after_setup f b wh)\<lparr>trace := fetched r, response := Some r\<rparr>"
  have r1: "response s1 = Some r" and h1: "halted s1 = None"
    by (simp_all add: s1_def after_setup_def)
  have g2: "guard cell2 s1 = s1\<lparr>halted := Some (Raised e)\<rparr>"
    using cell2_raises[OF r1 assms(2)] h1 by (simp add: guard_def)
  show ?thesis
    unfolding run_unfold cell0_initial fetched_state[OF assms(1)] s1_def[symmetric] g2
    by (simp add: guard_halted s1_def)
qed

lemma tail_absent:
  assumes "\<not> found w st" and "root_level st = WARNING"
  shows "guard (cell6 w) (guard (cell5 w) (guard (cell4 w) (cell3 w st))) =
     st\<lparr>trace := trace st @ upload_failed,
        fs := (fs st)(log_file_name \<mapsto> Log (log_records st @ [upload_error])),
        halted := Some (Exited 1)\<rparr>"
  unfolding cell3_absent[OF assms] by (simp add: guard_halted upload_failed_def)

lemma tail_skipped:
  assumes "found w st" and "root_level st = WARNING" and "halted st = None"
    and "response st = Some r" and "status_code r \<noteq> 200"
    and "fs st log_file_name = Some lg"
  shows "guard (cell6 w) (guard (cell5 w) (guard (cell4 w) (cell3 w st))) =
     st\<lparr>trace := trace st @ upload_verified @ closing w,
        bucket := log_copy w lg (csv_copy w (fs st local_path) (bucket st)),
        fs := cleanup w (fs st)\<rparr>"
proof -
  define s3 where "s3 = st\<lparr>trace := trace st @ upload_verified,
      bucket := csv_copy w (fs st local_path) (bucket st)\<rparr>"
  have c3: "cell3 w st = s3"
    unfolding cell3_present[OF assms(1,2)] by (simp add: s3_def upload_verified_def csv_copy_def)
  have p3: "response s3 = Some r" "root_level s3 = WARNING" "halted s3 = None"
    using assms by (simp_all add: s3_def)
  define s4 where "s4 = s3\<lparr>trace := trace s3 @ [step4_line, end_line]\<rparr>"
  have c4: "guard (cell4 w) s3 = s4"
    using cell4_skipped[OF p3(1) assms(5) p3(2,3)] p3(3) by (simp add: guard_def s4_def)
  have p4: "halted s4 = None" "fs s4 log_file_name = Some lg"
    using assms by (simp_all add: s4_def s3_def)
  define s5 where "s5 = s4\<lparr>trace := trace s4 @ [(5, GsutilCp log_file_name log_bucket_path)],
      bucket := log_copy w lg (bucket s4)\<rparr>"
  have c5: "guard (cell5 w) s4 = s5"
    using p4 by (simp add: guard_def cell5_eq s5_def log_copy_def)
  have p5: "halted s5 = None" using p4 by (simp add: s5_def)
  have c6: "guard (cell6 w) s5 =
      s5\<lparr>trace := trace s5 @ [(6, Rm (operands (expand w ''local_path''))),
                                (6, Rm (operands (expand w ''log_file_name'')))],
         fs := cleanup w (fs s5)\<rparr>"
    using p5 by (simp add: guard_def cell6_eq cleanup_def)
  show ?thesis
    unfolding c3 c4 c5 c6 by (simp add: s5_def s4_def s3_def closing_def)
qed

lemma tail_loaded:
  assumes "found w st" and "root_level st = WARNING" and "halted st = None"
    and "response st = Some r" and "status_code r = 200"
    and "fs st log_file_name = Some lg" and "coin_data_schema st = Some sch"
  shows "guard (cell6 w) (guard (cell5 w) (guard (cell4 w) (cell3 w st))) =
     st\<lparr>trace := trace st @ upload_verified @ load_calls @ closing w,
        bucket := log_copy w lg (csv_copy w (fs st local_path) (bucket st)),
        warehouse := replaceTableContents ''cryptocurrency'' ''coin_data'' sch
                       (loaded_rows w (csv_copy w (fs st local_path) (bucket st) bucket_path))
                       (warehouse st),
        fs := cleanup w (fs st)\<rparr>"
proof -
  define s3 where "s3 = st\<lparr>trace := trace st @ upload_verified,
      bucket := csv_copy w (fs st local_path) (bucket st)\<rparr>"
  have c3: "cell3 w st = s3"
    unfolding cell3_present[OF assms(1,2)] by (simp add: s3_def upload_verified_def csv_copy_def)
  have p3: "response s3 = Some r" "root_level s3 = WARNING" "halted s3 = None"
    "coin_data_schema s3 = Some sch"
    using assms by (simp_all add: s3_def)
  define s4 where "s4 = s3\<lparr>trace := trace s3 @ load_calls @ [step4_line, end_line],
      warehouse := replaceTableContents ''cryptocurrency'' ''coin_data'' sch
                     (loaded_rows w (bucket s3 bucket_path)) (warehouse s3)\<rparr>"
  have c4: "guard (cell4 w) s3 = s4"
    using cell4_loaded[OF p3(1) assms(5) p3(2,3,4)] p3(3)
    by (simp add: guard_def s4_def load_calls_def loaded_rows_def)
  have p4: "halted s4 = None" "fs s4 log_file_name = Some lg"
    using assms by (simp_all add: s4_def s3_def)
  define s5 where "s5 = s4\<lparr>trace := trace s4 @ [(5, GsutilCp log_file_name log_bucket_path)],
      bucket := log_copy w lg (bucket s4)\<rparr>"
  have c5: "guard (cell5 w) s4 = s5"
    using p4 by (simp add: guard_def cell5_eq s5_def log_copy_def)
  have p5: "halted s5 = None" using p4 by (simp add: s5_def)
  have c6: "guard (cell6 w) s5 =
      s5\<lparr>trace := trace s5 @ [(6, Rm (operands (expand w ''local_path''))),
                                (6, Rm (operands (expand w ''log_file_name'')))],
         fs := cleanup w (fs s5)\<rparr>"
    using p5 by (simp add: guard_def cell6_eq cleanup_def)
  show ?thesis
    unfolding c3 c4 c5 c6 by (simp add: s5_def s4_def s3_def closing_def)
qed

lemma paths_differ: "local_path \<noteq> log_file_name" "log_file_name \<noteq> local_path"
  by (simp_all add: local_path_def log_file_name_def)

lemma error_logged_state:
  assumes "fetch w = Some (Returns r)" and "status_code r \<noteq> 200" and "error_msg r = Inr m"
  shows "guard cell2 (guard (cell1 w) (after_setup f b wh)) =
     (after_setup f b wh)\<lparr>trace := fetched r @ fetch_failed m, response := Some r,
        fs := f(log_file_name \<mapsto> Log (prior_records f @ [fetch_error m]))\<rparr>"
proof -
  define s1 where "s1 = (after_setup f b wh)\<lparr>trace := fetched r, response := Some r\<rparr>"
  have p1: "response s1 = Some r" "root_level s1 = WARNING" "halted s1 = None"
    by (simp_all add: s1_def after_setup_def)
  show ?thesis
    unfolding fetched_state[OF assms(1)] s1_def[symmetric]
    using cell2_error_logged[OF p1(1) assms(2,3) p1(2)] p1(3)
    by (simp add: guard_def) (simp add: s1_def after_setup_def fetch_failed_def log_records_def)
qed

lemma csv_saved_state:
  assumes "fetch w = Some (Returns r)" and "status_code r = 200"
    and "crypto_data_list r = Inr d" and "crypto_data_tbl_df d = Inr df"
  shows "guard cell2 (guard (cell1 w) (after_setup f b wh)) =
     (after_setup f b wh)\<lparr>trace := fetched r @ csv_saved, response := Some r,
        fs := f(log_file_name \<mapsto> Log (prior_records f), local_path \<mapsto> csv_of df),
        coin_data_schema := Some (columns df)\<rparr>"
proof -
  define s1 where "s1 = (after_setup f b wh)\<lparr>trace := fetched r, response := Some r\<rparr>"
  have p1: "response s1 = Some r" "root_level s1 = WARNING" "halted s1 = None"
    by (simp_all add: s1_def after_setup_def)
  show ?thesis
    unfolding fetched_state[OF assms(1)] s1_def[symmetric]
    using cell2_saved[OF p1(1) assms(2,3,4) p1(2)] p1(3)
    by (simp add: guard_def) (simp add: s1_def after_setup_def csv_saved_def)
qed

lemma run_error_absent:
  assumes "fetch w = Some (Returns r)" and "status_code r \<noteq> 200" and "error_msg r = Inr m"
    and "f local_path = None \<or> \<not> gsutil_ok w bucket_path" and "b bucket_path = None"
  shows "run w f b wh =
     (after_setup f b wh)\<lparr>trace := fetched r @ fetch_failed m @ upload_failed,
        response := Some r,
        fs := f(log_file_name \<mapsto> Log (prior_records f @ [fetch_error m, upload_error])),
        halted := Some (Exited 1)\<rparr>"
proof -
  define s2 where "s2 = (after_setup f b wh)\<lparr>trace := fetched r @ fetch_failed m,
      response := Some r, fs := f(log_file_name \<mapsto> Log (prior_records f @ [fetch_error m]))\<rparr>"
  have p2: "\<not> found w s2" "root_level s2 = WARNING" "halted s2 = None"
    using assms(4,5) by (auto simp: s2_def after_setup_def found_def paths_differ)
  show ?thesis
    unfolding run_unfold cell0_initial error_logged_state[OF assms(1,2,3)] s2_def[symmetric]
      guard_running[OF p2(3)] tail_absent[OF p2(1,2)]
    by (simp add: s2_def after_setup_def log_records_def)
qed

lemma run_error_present:
  assumes "fetch w = Some (Returns r)" and "status_code r \<noteq> 200" and "error_msg r = Inr m"
    and "(f local_path \<noteq> None \<and> gsutil_ok w bucket_path) \<or> b bucket_path \<noteq> None"
  shows "run w f b wh =
     (after_setup f b wh)\<lparr>trace := fetched r @ fetch_failed m @ upload_verified @ closing w,
        response := Some r,
        fs := cleanup w (f(log_file_name \<mapsto> Log (prior_records f @ [fetch_error m]))),
        bucket := log_copy w (Log (prior_records f @ [fetch_error m]))
                    (csv_copy w (f local_path) b)\<rparr>"
proof -
  define s2 where "s2 = (after_setup f b wh)\<lparr>trace := fetched r @ fetch_failed m,
      response := Some r, fs := f(log_file_name \<mapsto> Log (prior_records f @ [fetch_error m]))\<rparr>"
  have p2: "found w s2" "root_level s2 = WARNING" "halted s2 = None" "response s2 = Some r"
    "fs s2 log_file_name = Some (Log (prior_records f @ [fetch_error m]))"
    using assms(4) by (auto simp: s2_def after_setup_def found_def paths_differ)
  show ?thesis
    unfolding run_unfold cell0_initial error_logged_state[OF assms(1,2,3)] s2_def[symmetric]
      guard_running[OF p2(3)] tail_skipped[OF p2(1,2,3,4) assms(2) p2(5)]
    by (simp add: s2_def after_setup_def paths_differ)
qed

lemma run_saved_absent:
  assumes "fetch w = Some (Returns r)" and "status_code r = 200"
    and "crypto_data_list r = Inr d" and "crypto_data_tbl_df d = Inr df"
    and "\<not> gsutil_ok w bucket_path" and "b bucket_path = None"
  shows "run w f b wh =
     (after_setup f b wh)\<lparr>trace := fetched r @ csv_saved @ upload_failed,
        response := Some r,
        fs := f(log_file_name \<mapsto> Log (prior_records f @ [upload_error]),
                local_path \<mapsto> csv_of df),
        coin_data_schema := Some (columns df),
        halted := Some (Exited 1)\<rparr>"
proof -
  define s2 where "s2 = (after_setup f b wh)\<lparr>trace := fetched r @ csv_saved, response := Some r,
        fs := f(log_file_name \<mapsto> Log (prior_records f), local_path \<mapsto> csv_of df),
        coin_data_schema := Some (columns df)\<rparr>"
  have p2: "\<not> found w s2" "root_level s2 = WARNING" "halted s2 = None"
    using assms(5,6) by (auto simp: s2_def after_setup_def found_def)
  have u: "f(log_file_name \<mapsto> Log (prior_records f), local_path \<mapsto> csv_of df,
             log_file_name \<mapsto> Log (prior_records f @ [upload_error]))
         = f(log_file_name \<mapsto> Log (prior_records f @ [upload_error]),
             local_path \<mapsto> csv_of df)"
    by (auto simp: fun_eq_iff paths_differ)
  show ?thesis
    unfolding run_unfold cell0_initial csv_saved_state[OF assms(1,2,3,4)] s2_def[symmetric]
      guard_running[OF p2(3)] tail_absent[OF p2(1,2)]
    by (simp add: s2_def after_setup_def log_records_def paths_differ u)
qed

lemma run_saved_present:
  assumes "fetch w = Some (Returns r)" and "status_code r = 200"
    and "crypto_data_list r = Inr d" and "crypto_data_tbl_df d = Inr df"
    and "gsutil_ok w bucket_path \<or> b bucket_path \<noteq> None"
  shows "run w f b wh =
     (after_setup f b wh)\<lparr>trace := fetched r @ csv_saved @ upload_verified @ load_calls @ closing w,
        response := Some r,
        fs := cleanup w (f(log_file_name \<mapsto> Log (prior_records f), local_path \<mapsto> csv_of df)),
        coin_data_schema := Some (columns df),
        bucket := log_copy w (Log (prior_records f)) (csv_copy w (Some (csv_of df)) b),
        warehouse := replaceTableContents ''cryptocurrency'' ''coin_data'' (columns df)
                       (loaded_rows w (csv_copy w (Some (csv_of df)) b bucket_path)) wh\<rparr>"
proof -
  define s2 where "s2 = (after_setup f b wh)\<lparr>trace := fetched r @ csv_saved, response := Some r,
        fs := f(log_file_name \<mapsto> Log (prior_records f), local_path \<mapsto> csv_of df),
        coin_data_schema := Some (columns df)\<rparr>"
  have p2: "found w s2" "root_level s2 = WARNING" "halted s2 = None" "response s2 = Some r"
    "fs s2 log_file_name = Some (Log (prior_records f))"
    "coin_data_schema s2 = Some (columns df)"
    using assms(5) by (auto simp: s2_def after_setup_def found_def paths_differ)
  show ?thesis
    unfolding run_unfold cell0_initial csv_saved_state[OF assms(1,2,3,4)] s2_def[symmetric]
      guard_running[OF p2(3)] tail_loaded[OF p2(1,2,3,4) assms(2) p2(5,6)]
    by (simp add: s2_def after_setup_def)
qed

section \<open>The ways a run can go\<close>

lemma run_cases:
  obtains
    (no_request) e where "fetch w = None"
      "run w f b wh = (after_setup f b wh)\<lparr>trace := [start_line, (1, GcsRead config_path)],
                           halted := Some (Raised e)\<rparr>"
  | (transport) m where "fetch w = Some (Raises m)"
      "run w f b wh =
         (after_setup f b wh)\<lparr>trace := [start_line, (1, GcsRead config_path), (1, HttpGet None),
                                         (1, Print ''{}'' [JStr m]), step1_line],
                               halted := Some (Raised AttributeError)\<rparr>"
  | (raised) r e where "fetch w = Some (Returns r)"
      "run w f b wh = (after_setup f b wh)\<lparr>trace := fetched r, response := Some r,
                           halted := Some (Raised e)\<rparr>"
  | (error_absent) r m where "fetch w = Some (Returns r)" "status_code r \<noteq> 200"
      "run w f b wh =
         (after_setup f b wh)\<lparr>trace := fetched r @ fetch_failed m @ upload_failed,
            response := Some r,
            fs := f(log_file_name \<mapsto> Log (prior_records f @ [fetch_error m, upload_error])),
            halted := Some (Exited 1)\<rparr>"
  | (error_present) r m where "fetch w = Some (Returns r)" "status_code r \<noteq> 200"
      "run w f b wh =
         (after_setup f b wh)\<lparr>trace := fetched r @ fetch_failed m @ upload_verified @ closing w,
            response := Some r,
            fs := cleanup w (f(log_file_name \<mapsto> Log (prior_records f @ [fetch_error m]))),
            bucket := log_copy w (Log (prior_records f @ [fetch_error m]))
                        (csv_copy w (f local_path) b)\<rparr>"
  | (saved_absent) r d df where "fetch w = Some (Returns r)" "status_code r = 200"
      "crypto_data_list r = Inr d" "crypto_data_tbl_df d = Inr df"
      "run w f b wh =
         (after_setup f b wh)\<lparr>trace := fetched r @ csv_saved @ upload_failed,
            response := Some r,
            fs := f(log_file_name \<mapsto> Log (prior_records f @ [upload_error]),
                    local_path \<mapsto> csv_of df),
            coin_data_schema := Some (columns df),
            halted := Some (Exited 1)\<rparr>"
  | (saved_present) r d df where "fetch w = Some (Returns r)" "status_code r = 200"
      "crypto_data_list r = Inr d" "crypto_data_tbl_df d = Inr df"
      "run w f b wh =
         (after_setup f b wh)\<lparr>trace := fetched r @ csv_saved @ upload_verified @ load_calls @ closing w,
            response := Some r,
            fs := cleanup w (f(log_file_name \<mapsto> Log (prior_records f), local_path \<mapsto> csv_of df)),
            coin_data_schema := Some (columns df),
            bucket := log_copy w (Log (prior_records f)) (csv_copy w (Some (csv_of df)) b),
            warehouse := replaceTableContents ''cryptocurrency'' ''coin_data'' (columns df)
                           (loaded_rows w (csv_copy w (Some (csv_of df)) b bucket_path)) wh\<rparr>"
proof (cases "fetch w")
  case None
  then show ?thesis using run_no_request[OF None, of f b wh] no_request by blast
next
  case (Some res)
  show ?thesis
  proof (cases res)
    case (Raises m)
    then show ?thesis using run_transport_error[of w m f b wh] Some transport by blast
  next
    case (Returns r)
    then have fr: "fetch w = Some (Returns r)" using Some by simp
    show ?thesis
    proof (cases "status_code r = 200")
      case False
      show ?thesis
      proof (cases "error_msg r")
        case (Inl e)
        then show ?thesis using run_cell2_raises[OF fr, of e undefined f b wh] False raised[OF fr] by blast
      next
        case (Inr m)
        show ?thesis
        proof (cases "(f local_path \<noteq> None \<and> gsutil_ok w bucket_path) \<or> b bucket_path \<noteq> None")
          case True
          then show ?thesis using run_error_present[where f=f and b=b and wh=wh, OF fr False Inr True] error_present[OF fr False] by blast
        next
          case no: False
          then have "f local_path = None \<or> \<not> gsutil_ok w bucket_path" "b bucket_path = None" by auto
          then show ?thesis using run_error_absent[where f=f and b=b and wh=wh, OF fr False Inr] error_absent[OF fr False] by blast
        qed
      qed
    next
      case True
      show ?thesis
      proof (cases "crypto_data_list r")
        case (Inl e)
        then show ?thesis using run_cell2_raises[OF fr, of e undefined f b wh] True raised[OF fr] by blast
      next
        case (Inr d)
        show ?thesis
        proof (cases "crypto_data_tbl_df d")
          case (Inl e)
          then show ?thesis using run_cell2_raises[OF fr, of e d f b wh] True Inr raised[OF fr] by blast
        next
          case df: (Inr df)
          show ?thesis
          proof (cases "gsutil_ok w bucket_path \<or> b bucket_path \<noteq> None")
            case ok: True
            show ?thesis using run_saved_present[where f=f and b=b and wh=wh, OF fr True Inr df ok] saved_present[OF fr True Inr df] by blast
          next
            case no: False
            then have "\<not> gsutil_ok w bucket_path" "b bucket_path = None" by auto
            then show ?thesis using run_saved_absent[where f=f and b=b and wh=wh, OF fr True Inr df] saved_absent[OF fr True Inr df] by blast
          qed
        qed
      qed
    qed
  qed
qed

lemmas segment_defs = fetched_def fetch_failed_def csv_saved_def upload_failed_def
  upload_verified_def load_calls_def closing_def start_line_def step1_line_def step2_line_def
  step3_line_def step4_line_def end_line_def logged_def fetch_error_def upload_error_def

section \<open>Example runs\<close>




lemma fetch_world_401: "fetch world_401 = Some (Returns response_401)"
  by (simp add: fetch_def world_401_def world_ok_def config_ok_def)

lemma fetch_world_down: "fetch world_down = Some (Raises ''Connection refused'')"
  by (simp add: fetch_def world_down_def world_ok_def config_ok_def)


lemma response_401_facts:
  "status_code response_401 = 401"
  "error_msg response_401 = Inr (JStr ''API key missing.'')"
  by (simp_all add: response_401_def error_msg_def json_loads_def)

section \<open>Order of the steps and what gates them\<close>


lemma run_world_401:
  "run world_401 Map.empty earlier_bucket Map.empty =
     (after_setup Map.empty earlier_bucket Map.empty)
       \<lparr>trace := fetched response_401 @ fetch_failed (JStr ''API key missing.'') @ upload_verified
                   @ closing world_401,
        response := Some response_401,
        fs := cleanup world_401
                (Map.empty(log_file_name \<mapsto>
                   Log (prior_records Map.empty @ [fetch_error (JStr ''API key missing.'')]))),
        bucket := log_copy world_401
                    (Log (prior_records Map.empty @ [fetch_error (JStr ''API key missing.'')]))
                    (csv_copy world_401 (Map.empty local_path) earlier_bucket)\<rparr>"
  by (rule run_error_present[where f=Map.empty and b=earlier_bucket, OF fetch_world_401])
    (simp_all add: response_401_facts earlier_bucket_def)




section \<open>Upload verification\<close>

lemma log_records_cleanup:
  assumes "fs st = cleanup w (f(log_file_name \<mapsto> Log rs))"
  shows "set (log_records st) \<subseteq> set rs"
  using assms by (auto simp: log_records_def cleanup_def split: if_splits)

lemma log_records_cleanup2:
  assumes "fs st = cleanup w (f(log_file_name \<mapsto> Log rs, local_path \<mapsto> c))"
  shows "set (log_records st) \<subseteq> set rs"
  using assms by (auto simp: log_records_def cleanup_def paths_differ split: if_splits)

lemma log_records_eq: "fs st log_file_name = Some (Log rs) \<Longrightarrow> log_records st = rs"
  by (simp add: log_records_def)

lemma only_errors_added:
  "\<forall>rec\<in>set (log_records (run w f b wh)). rec \<in> set (prior_records f) \<or> fst rec = ERROR"
proof (cases rule: run_cases[of w f b wh])
  case (no_request e)
  have "fs (run w f b wh) log_file_name = Some (Log (prior_records f))"
    by (simp add: no_request(2) after_setup_def)
  then show ?thesis by (simp add: log_records_eq)
next
  case (transport m)
  have "fs (run w f b wh) log_file_name = Some (Log (prior_records f))"
    by (simp add: transport(2) after_setup_def)
  then show ?thesis by (simp add: log_records_eq)
next
  case (raised r e)
  have "fs (run w f b wh) log_file_name = Some (Log (prior_records f))"
    by (simp add: raised(2) after_setup_def)
  then show ?thesis by (simp add: log_records_eq)
next
  case (error_absent r m)
  have "fs (run w f b wh) log_file_name =
      Some (Log (prior_records f @ [fetch_error m, upload_error]))"
    by (simp add: error_absent(3))
  then show ?thesis by (simp add: log_records_eq fetch_error_def upload_error_def)
next
  case (error_present r m)
  have "fs (run w f b wh) =
      cleanup w (f(log_file_name \<mapsto> Log (prior_records f @ [fetch_error m])))"
    by (simp add: error_present(3))
  then have "set (log_records (run w f b wh)) \<subseteq> set (prior_records f @ [fetch_error m])"
    by (rule log_records_cleanup)
  moreover have "fst (fetch_error m) = ERROR" by (simp add: fetch_error_def)
  ultimately show ?thesis by auto
next
  case (saved_absent r d df)
  have "fs (run w f b wh) log_file_name = Some (Log (prior_records f @ [upload_error]))"
    by (simp add: saved_absent(5) paths_differ)
  then show ?thesis by (simp add: log_records_eq upload_error_def)
next
  case (saved_present r d df)
  have "fs (run w f b wh) =
      cleanup w (f(log_file_name \<mapsto> Log (prior_records f), local_path \<mapsto> csv_of df))"
    by (simp add: saved_present(5))
  then have "set (log_records (run w f b wh)) \<subseteq> set (prior_records f)"
    by (rule log_records_cleanup2)
  then show ?thesis by auto
qed




section \<open>Full refresh of the table\<close>





section \<open>A transport error\<close>

text \<open>
  Claim C4 on the code. When the request raises a transport error, \<open>api_call\<close> catches
  it and prints it, step 1 completes, and the first statement of step 2 raises
  AttributeError, which nothing catches: the run ends there with the trace below, no
  record was added to the log file, and the bucket and the warehouse are as they were.
\<close>

theorem transport_error_then_attribute_error:
  "fetch w = Some (Raises m) \<Longrightarrow>
   halted (run w f b wh) = Some (Raised AttributeError) \<and>
   trace (run w f b wh) =
     [start_line, (1, GcsRead config_path), (1, HttpGet None), (1, Print ''{}'' [JStr m]),
      step1_line] \<and>
   log_records (run w f b wh) = prior_records f \<and>
   bucket (run w f b wh) = b \<and> warehouse (run w f b wh) = wh"
proof -
  assume raises: "fetch w = Some (Raises m)"
  have ended: "run w f b wh =
     (after_setup f b wh)\<lparr>trace := [start_line, (1, GcsRead config_path), (1, HttpGet None),
                                     (1, Print ''{}'' [JStr m]), step1_line],
                           halted := Some (Raised AttributeError)\<rparr>"
    using raises by (rule run_transport_error)
  have log: "fs (run w f b wh) log_file_name = Some (Log (prior_records f))"
    unfolding ended by (simp add: after_setup_def)
  have "log_records (run w f b wh) = prior_records f"
    using log by (rule log_records_eq)
  moreover have "halted (run w f b wh) = Some (Raised AttributeError)"
    and "bucket (run w f b wh) = b" and "warehouse (run w f b wh) = wh"
    and "trace (run w f b wh) =
     [start_line, (1, GcsRead config_path), (1, HttpGet None), (1, Print ''{}'' [JStr m]),
      step1_line]"
    unfolding ended by (simp_all add: after_setup_def)
  ultimately show ?thesis by simp
qed

theorem transport_error_then_attribute_error_witness:
  "halted (run world_down Map.empty Map.empty Map.empty) = Some (Raised AttributeError) \<and>
   log_records (run world_down Map.empty Map.empty Map.empty) = [] \<and>
   trace (run world_down Map.empty Map.empty Map.empty) =
     [start_line, (1, GcsRead config_path), (1, HttpGet None),
      (1, Print ''{}'' [JStr ''Connection refused'']), step1_line]"
  using transport_error_then_attribute_error[OF fetch_world_down, of Map.empty Map.empty Map.empty]
  by (simp add: prior_records_def)

section \<open>Cleanup of the local files\<close>







section \<open>The completion lines of step 4\<close>

lemma log_copy_at:
  "gsutil_ok w log_bucket_path \<Longrightarrow> log_copy w c bk log_bucket_path = Some c"
  by (simp add: log_copy_def)

lemma uploaded_log_only_errors:
  assumes "gsutil_ok w log_bucket_path"
    and "(3, ObjectExists bucket_path True) \<in> set (trace (run w f b wh))"
  shows "\<exists>rs. bucket (run w f b wh) log_bucket_path = Some (Log rs) \<and>
              (\<forall>rec\<in>set rs. rec \<in> set (prior_records f) \<or> fst rec = ERROR)"
proof (cases rule: run_cases[of w f b wh])
  case (no_request e)
  then show ?thesis using assms(2) by (simp add: after_setup_def segment_defs)
next
  case (transport m)
  then show ?thesis using assms(2) by (simp add: after_setup_def segment_defs)
next
  case (raised r e)
  then show ?thesis using assms(2) by (simp add: after_setup_def segment_defs)
next
  case (error_absent r m)
  then show ?thesis using assms(2) by (simp add: after_setup_def segment_defs)
next
  case (error_present r m)
  have "bucket (run w f b wh) log_bucket_path = Some (Log (prior_records f @ [fetch_error m]))"
    by (simp add: error_present(3) log_copy_at[OF assms(1)])
  moreover have "\<forall>rec\<in>set (prior_records f @ [fetch_error m]).
      rec \<in> set (prior_records f) \<or> fst rec = ERROR"
    by (simp add: fetch_error_def)
  ultimately show ?thesis by blast
next
  case (saved_absent r d df)
  then show ?thesis using assms(2) by (simp add: after_setup_def segment_defs)
next
  case (saved_present r d df)
  have "bucket (run w f b wh) log_bucket_path = Some (Log (prior_records f))"
    by (simp add: saved_present(5) log_copy_at[OF assms(1)])
  then show ?thesis by simp
qed

lemma completion_lines_issued:
  assumes "(3, ObjectExists bucket_path True) \<in> set (trace (run w f b wh))"
  shows "step4_line \<in> set (trace (run w f b wh))"
    and "end_line \<in> set (trace (run w f b wh))"
    and "(1, HttpGet (Some 200)) \<notin> set (trace (run w f b wh)) \<Longrightarrow>
         \<forall>x\<in>set load_calls. x \<notin> set (trace (run w f b wh))"
proof -
  have "step4_line \<in> set (trace (run w f b wh)) \<and>
        end_line \<in> set (trace (run w f b wh)) \<and>
        ((1, HttpGet (Some 200)) \<notin> set (trace (run w f b wh)) \<longrightarrow>
           (\<forall>x\<in>set load_calls. x \<notin> set (trace (run w f b wh))))"
  proof (cases rule: run_cases[of w f b wh])
    case (no_request e)
    then show ?thesis using assms by (simp add: after_setup_def segment_defs)
  next
    case (transport m)
    then show ?thesis using assms by (simp add: after_setup_def segment_defs)
  next
    case (raised r e)
    then show ?thesis using assms by (simp add: after_setup_def segment_defs)
  next
    case (error_absent r m)
    then show ?thesis using assms by (simp add: after_setup_def segment_defs)
  next
    case (error_present r m)
    then show ?thesis by (simp add: after_setup_def segment_defs)
  next
    case (saved_absent r d df)
    then show ?thesis using assms by (simp add: after_setup_def segment_defs)
  next
    case (saved_present r d df)
    then show ?thesis by (simp add: after_setup_def segment_defs)
  qed
  then show "step4_line \<in> set (trace (run w f b wh))"
    and "end_line \<in> set (trace (run w f b wh))"
    and "(1, HttpGet (Some 200)) \<notin> set (trace (run w f b wh)) \<Longrightarrow>
         \<forall>x\<in>set load_calls. x \<notin> set (trace (run w f b wh))"
    by blast+
qed

text \<open>
  Claim C10 on the code. On every run in which the existence check of step 3 found the
  object, the step-4 completion message and the end marker are passed to the logger,
  also when the fetch did not return 200 and nothing was created or loaded. But every
  record that the run adds to the log file, and to the copy of it that reaches the
  bucket, has level ERROR; the two messages, which have level INFO, are in neither.
\<close>

theorem step4_lines_issued_not_written:
  "(3, ObjectExists bucket_path True) \<in> set (trace (run w f b wh)) \<longrightarrow>
     step4_line \<in> set (trace (run w f b wh)) \<and>
     end_line \<in> set (trace (run w f b wh)) \<and>
     ((1, HttpGet (Some 200)) \<notin> set (trace (run w f b wh)) \<longrightarrow>
        (\<forall>x\<in>set load_calls. x \<notin> set (trace (run w f b wh)))) \<and>
     (\<forall>rec\<in>set (log_records (run w f b wh)). rec \<in> set (prior_records f) \<or> fst rec = ERROR) \<and>
     (gsutil_ok w log_bucket_path \<longrightarrow>
        (\<exists>rs. bucket (run w f b wh) log_bucket_path = Some (Log rs) \<and>
              (\<forall>rec\<in>set rs. rec \<in> set (prior_records f) \<or> fst rec = ERROR)))"
  using completion_lines_issued[of w f b wh] uploaded_log_only_errors[of w f b wh]
    only_errors_added[of w f b wh]
  by blast

theorem step4_lines_issued_not_written_witness:
  "(1, HttpGet (Some 401)) \<in> set (trace (run world_401 Map.empty earlier_bucket Map.empty)) \<and>
   step4_line \<in> set (trace (run world_401 Map.empty earlier_bucket Map.empty)) \<and>
   end_line \<in> set (trace (run world_401 Map.empty earlier_bucket Map.empty)) \<and>
   (4, TableLoad ''cryptocurrency'' ''coin_data'' bucket_path)
     \<notin> set (trace (run world_401 Map.empty earlier_bucket Map.empty)) \<and>
   bucket (run world_401 Map.empty earlier_bucket Map.empty) log_bucket_path =
     Some (Log [fetch_error (JStr ''API key missing.'')])"
proof -
  have a: "(3, ObjectExists bucket_path True)
      \<in> set (trace (run world_401 Map.empty earlier_bucket Map.empty))"
    and c: "(1, HttpGet (Some 401)) \<in> set (trace (run world_401 Map.empty earlier_bucket Map.empty))"
    and n: "(1, HttpGet (Some 200)) \<notin> set (trace (run world_401 Map.empty earlier_bucket Map.empty))"
    unfolding run_world_401 by (simp_all add: segment_defs response_401_facts)
  have b: "bucket (run world_401 Map.empty earlier_bucket Map.empty) log_bucket_path =
     Some (Log [fetch_error (JStr ''API key missing.'')])"
    unfolding run_world_401
    by (simp add: log_copy_def world_401_def world_ok_def prior_records_def)
  have l: "(4, TableLoad ''cryptocurrency'' ''coin_data'' bucket_path) \<in> set load_calls"
    by (simp add: load_calls_def)
  show ?thesis
    using a b c n l step4_lines_issued_not_written[of world_401 Map.empty earlier_bucket Map.empty]
    by blast
qed

end
